theory Spec2Isabelle
  imports Main "HOL-Library.Word" "HOL-Library.Sublist"
begin

section \<open>Strings of the JavaScript runtime\<close>

text \<open>
  A JavaScript string is a sequence of 16-bit code units; \<open>length\<close>, \<open>slice\<close>,
  \<open>includes\<close>, and a regular expression without the \<open>u\<close> flag all work on code
  units. The embedding keeps that: a string is a list of 16-bit words, and \<open>lit\<close>
  turns an ASCII literal of the source into its code units. Code units beyond
  ASCII that occur in the source's literals are written as numbers.
\<close>

type_synonym jschar = "16 word"
type_synonym jsstring = "jschar list"

definition lit :: "string \<Rightarrow> jsstring" where
  "lit s = map of_char s"

text \<open>The character classes of ECMAScript that the source's regular expressions
  and \<open>trim\<close> use: LineTerminator, WhiteSpace together with LineTerminator
  (the class \<open>\s\<close>, also what \<open>trim\<close> strips), \<open>\d\<close> and \<open>\w\<close>.\<close>

definition isLineTerminator :: "jschar \<Rightarrow> bool" where
  "isLineTerminator c = (c = 0x0A \<or> c = 0x0D \<or> c = 0x2028 \<or> c = 0x2029)"

definition isWhiteSpace :: "jschar \<Rightarrow> bool" where
  "isWhiteSpace c =
     (c = 0x09 \<or> c = 0x0B \<or> c = 0x0C \<or> c = 0x20 \<or> c = 0xA0 \<or> c = 0x1680 \<or>
      (0x2000 \<le> c \<and> c \<le> 0x200A) \<or> c = 0x202F \<or> c = 0x205F \<or> c = 0x3000 \<or>
      c = 0xFEFF \<or> isLineTerminator c)"

definition isDigit :: "jschar \<Rightarrow> bool" where
  "isDigit c = (0x30 \<le> c \<and> c \<le> 0x39)"

definition isWordChar :: "jschar \<Rightarrow> bool" where
  "isWordChar c =
     ((0x41 \<le> c \<and> c \<le> 0x5A) \<or> (0x61 \<le> c \<and> c \<le> 0x7A) \<or> isDigit c \<or> c = 0x5F)"

text \<open>
  Case-insensitive matching (flag \<open>i\<close>, no flag \<open>u\<close>) compares the canonical forms
  of the pattern's and the input's code unit: the upper-case mapping, except that
  a code unit of 128 or more never maps into ASCII. Every pattern character of the
  source is ASCII, U+0142 or a caseless sign, and on those the canonical form
  below decides the same matches as the full Unicode mapping: an ASCII letter
  matches exactly its two cases, U+0142 matches U+0141 and itself, and every other
  pattern character matches itself only.
\<close>

definition canonicalize :: "jschar \<Rightarrow> jschar" where
  "canonicalize c =
     (if 0x61 \<le> c \<and> c \<le> 0x7A then c - 0x20 else if c = 0x142 then 0x141 else c)"

definition charMatches :: "bool \<Rightarrow> jschar \<Rightarrow> jschar \<Rightarrow> bool" where
  "charMatches ignoreCase p c =
     (if ignoreCase then canonicalize p = canonicalize c else p = c)"

text \<open>\<open>matchesAt ic p s\<close>: the literal pattern \<open>p\<close> matches at the start of \<open>s\<close>.\<close>

fun matchesAt :: "bool \<Rightarrow> jsstring \<Rightarrow> jsstring \<Rightarrow> bool" where
  "matchesAt ic [] s = True"
| "matchesAt ic (p # ps) [] = False"
| "matchesAt ic (p # ps) (c # cs) = (charMatches ic p c \<and> matchesAt ic ps cs)"

text \<open>\<open>s.includes(k)\<close>: \<open>k\<close> occurs in \<open>s\<close> as a contiguous run.\<close>

fun includesStr :: "jsstring \<Rightarrow> jsstring \<Rightarrow> bool" where
  "includesStr [] k = (k = [])"
| "includesStr (c # cs) k = (matchesAt False k (c # cs) \<or> includesStr cs k)"

text \<open>\<open>s.trim()\<close> strips white space and line terminators from both ends.\<close>

definition trim :: "jsstring \<Rightarrow> jsstring" where
  "trim s = rev (dropWhile isWhiteSpace (rev (dropWhile isWhiteSpace s)))"

text \<open>
  \<open>regexSearch m s\<close> is how \<open>match\<close> and \<open>test\<close> look for a regular expression
  without the \<open>g\<close> flag: the matcher \<open>m\<close> is tried at every start position from
  the left, the end of the string included, and the first success is the result.
\<close>

fun regexSearch :: "(jsstring \<Rightarrow> 'a option) \<Rightarrow> jsstring \<Rightarrow> 'a option" where
  "regexSearch m [] = m []"
| "regexSearch m (c # cs) =
     (case m (c # cs) of Some g \<Rightarrow> Some g | None \<Rightarrow> regexSearch m cs)"


section \<open>Heuristic classifiers\<close>

subsection \<open>extractCompany\<close>

text \<open>
  The three expressions of \<open>extractCompany\<close> have one shape: a literal
  separator, then the group \<open>(.{lo,hi})\<close>, then \<open>$\<close>. The dot takes any code unit
  but a line terminator and \<open>$\<close> (no flag \<open>m\<close>) is the end of the input, so at a
  given start the expression matches when the separator is there and the whole
  rest has between \<open>lo\<close> and \<open>hi\<close> code units, none a line terminator; the
  group is that rest.
\<close>

definition dotGroup :: "nat \<Rightarrow> nat \<Rightarrow> jsstring \<Rightarrow> bool" where
  "dotGroup lo hi s =
     (lo \<le> length s \<and> length s \<le> hi \<and> list_all (\<lambda>c. \<not> isLineTerminator c) s)"

definition suffixGroup :: "bool \<Rightarrow> jsstring \<Rightarrow> nat \<Rightarrow> nat \<Rightarrow> jsstring \<Rightarrow> jsstring option" where
  "suffixGroup ic sep lo hi s =
     (if matchesAt ic sep s \<and> dotGroup lo hi (drop (length sep) s)
      then Some (drop (length sep) s) else None)"

definition extractCompany :: "jsstring \<Rightarrow> jsstring option" where
  "extractCompany title =
     (case regexSearch (suffixGroup False (lit '' @ '') 2 60) title of
        Some atMatch \<Rightarrow> Some (trim atMatch)
      | None \<Rightarrow>
     (case regexSearch (suffixGroup True (lit '' at '') 2 40) title of
        Some atLower \<Rightarrow> Some (trim atLower)
      | None \<Rightarrow>
     (case regexSearch (suffixGroup False (lit ''|'') 2 40) title of
        Some pipeMatch \<Rightarrow> Some (trim pipeMatch)
      | None \<Rightarrow> None)))"


subsection \<open>hasSalary\<close>

text \<open>
  The expression of \<open>hasSalary\<close>, with flag \<open>i\<close>, is an alternation of five
  branches: a digit, then digits and white space, then a unit; or one of four
  literal words. The unit is \<open>k\<close> before a word boundary, or one of the currency
  tokens; U+0142 is the second letter of the fourth token and U+20AC the last
  token. After the word character \<open>k\<close> a boundary is the end of the input or a
  non-word character.
\<close>

definition unitAt :: "jsstring \<Rightarrow> bool" where
  "unitAt s =
     ((matchesAt True (lit ''k'') s \<and>
         (case drop 1 s of [] \<Rightarrow> True | c # _ \<Rightarrow> \<not> isWordChar c)) \<or>
      matchesAt True (lit ''PLN'') s \<or> matchesAt True (lit ''pln'') s \<or>
      matchesAt True (lit ''z'' @ [0x142]) s \<or>
      matchesAt True (lit ''EUR'') s \<or> matchesAt True (lit ''eur'') s \<or>
      matchesAt True (lit ''USD'') s \<or> matchesAt True (lit ''$'') s \<or>
      matchesAt True [0x20AC] s)"

text \<open>\<open>[\d\s]*\<close> followed by the unit: the star gives back characters until the
  unit fits, so the unit may start after any prefix of the run.\<close>

fun amountRest :: "jsstring \<Rightarrow> bool" where
  "amountRest [] = unitAt []"
| "amountRest (c # cs) =
     (unitAt (c # cs) \<or> ((isDigit c \<or> isWhiteSpace c) \<and> amountRest cs))"

definition salaryAt :: "jsstring \<Rightarrow> unit option" where
  "salaryAt s =
     (if (case s of [] \<Rightarrow> False | c # cs \<Rightarrow> isDigit c \<and> amountRest cs) \<or>
         matchesAt True (lit ''b2b'') s \<or> matchesAt True (lit ''uop'') s \<or>
         matchesAt True (lit ''salary'') s \<or> matchesAt True (lit ''wynagrodzenie'') s
      then Some () else None)"

definition hasSalary :: "jsstring \<Rightarrow> bool" where
  "hasSalary text = (regexSearch salaryAt text \<noteq> None)"


section \<open>What the runtime and the outside world provide\<close>

text \<open>
  A JavaScript number, as far as this code computes with one: the time values and
  day counts are integers, and \<open>NaN\<close> is the time value of a date that did not
  parse. Time values are below \<open>8.64e15\<close> in magnitude, where the double
  division by \<open>86_400_000\<close> followed by \<open>Math.floor\<close> gives the integer floor of
  the quotient, which is \<open>div\<close> on \<open>int\<close>.
\<close>

datatype jsnum = NaN | Num int

fun jsMinus :: "jsnum \<Rightarrow> jsnum \<Rightarrow> jsnum" where
  "jsMinus (Num a) (Num b) = Num (a - b)"
| "jsMinus _ _ = NaN"

text \<open>\<open>Math.floor(ms / 86_400_000)\<close> and \<open>Math.max(0, x)\<close>; both give \<open>NaN\<close> on
  \<open>NaN\<close>.\<close>

fun floorDays :: "jsnum \<Rightarrow> jsnum" where
  "floorDays (Num ms) = Num (ms div 86400000)"
| "floorDays NaN = NaN"

fun mathMax0 :: "jsnum \<Rightarrow> jsnum" where
  "mathMax0 (Num x) = Num (max 0 x)"
| "mathMax0 NaN = NaN"

text \<open>
  The built-ins the source calls and does not define are parameters of the
  embedding: the Unicode case mappings of \<open>toLowerCase\<close> and \<open>toUpperCase\<close>;
  \<open>new Date(s).getTime()\<close>, which is \<open>NaN\<close> for a string that is no date and
  never throws; \<open>new URL(s).hostname\<close>, with \<open>None\<close> where the constructor
  throws; and the clock \<open>Date.now()\<close>, read as one instant for the whole run.
\<close>

record runtime =
  toLowerCase :: "jsstring \<Rightarrow> jsstring"
  toUpperCase :: "jsstring \<Rightarrow> jsstring"
  dateGetTime :: "jsstring \<Rightarrow> jsnum"
  urlHostname :: "jsstring \<Rightarrow> jsstring option"
  dateNow :: int


subsection \<open>isGhostPreflag\<close>

text \<open>The ten stock phrases; the sixth has U+0105, U+0142 and U+00F3.\<close>

definition ghostPhrases :: "jsstring list" where
  "ghostPhrases =
     [lit ''talent pool'', lit ''pula talent'', lit ''various clients'',
      lit ''multiple position'', lit ''ongoing recruitment'',
      lit ''ci'' @ [0x105] @ lit ''g'' @ [0x142] @ lit ''y nab'' @ [0xF3] @ lit ''r'',
      lit ''always looking'', lit ''pipeline'', lit ''future opportunit'',
      lit ''speculative'']"

definition isGhostPreflag :: "runtime \<Rightarrow> jsstring \<Rightarrow> jsstring \<Rightarrow> bool" where
  "isGhostPreflag rt title snippet =
     (let t = toLowerCase rt (title @ lit '' '' @ snippet)
      in list_ex (\<lambda>f. includesStr t f) ghostPhrases)"

subsection \<open>rssDateToAgeDays\<close>

text \<open>
  The body of the \<open>try\<close> block cannot throw: \<open>new Date\<close> of a string and
  \<open>getTime\<close> return a value for every string. So the \<open>catch\<close> branch, the only
  place that returns \<open>null\<close>, is never taken, and the result is always a number,
  \<open>NaN\<close> included. The result type keeps the \<open>null\<close> of the signature as \<open>None\<close>.
\<close>

definition rssDateToAgeDays :: "runtime \<Rightarrow> jsstring \<Rightarrow> jsnum option" where
  "rssDateToAgeDays rt dateStr =
     (let ms = jsMinus (Num (dateNow rt)) (dateGetTime rt dateStr)
      in Some (mathMax0 (floorDays ms)))"

subsection \<open>normalizeSite and slugToTitle\<close>

text \<open>\<open>replace(/^www\./, '')\<close> drops a leading \<open>www.\<close>.\<close>

definition stripWww :: "jsstring \<Rightarrow> jsstring" where
  "stripWww s = (if matchesAt False (lit ''www.'') s then drop 4 s else s)"

definition normalizeSite :: "runtime \<Rightarrow> jsstring \<Rightarrow> jsstring" where
  "normalizeSite rt site =
     (if includesStr site (lit ''://'')
      then (case urlHostname rt site of
              Some h \<Rightarrow> stripWww h
            | None \<Rightarrow> stripWww site)
      else stripWww site)"

text \<open>\<open>s.split(sep)\<close> for a one-character separator (at least one piece, the
  empty string gives one empty piece) and \<open>xs.join(sep)\<close>.\<close>

fun splitOn :: "jschar \<Rightarrow> jsstring \<Rightarrow> jsstring list" where
  "splitOn sep [] = [[]]"
| "splitOn sep (c # cs) =
     (if c = sep then [] # splitOn sep cs
      else (case splitOn sep cs of
              [] \<Rightarrow> [[c]]
            | p # ps \<Rightarrow> (c # p) # ps))"

fun joinWith :: "jsstring \<Rightarrow> jsstring list \<Rightarrow> jsstring" where
  "joinWith sep [] = []"
| "joinWith sep [x] = x"
| "joinWith sep (x # y # ys) = x @ sep @ joinWith sep (y # ys)"

text \<open>\<open>parts.slice(0, -2)\<close> on more than two parts drops the last two.\<close>

definition slugToTitle :: "runtime \<Rightarrow> jsstring \<Rightarrow> jsstring" where
  "slugToTitle rt slug =
     (let parts = filter (\<lambda>p. p \<noteq> []) (splitOn 0x2D slug);
          meaningful = (if length parts > 2 then take (length parts - 2) parts else parts)
      in joinWith (lit '' '')
           (map (\<lambda>w. toUpperCase rt (take 1 w) @ drop 1 w) meaningful))"


section \<open>Filter evaluation (userConfig.ts)\<close>

datatype work_mode = Remote | Hybrid | Onsite | AnyMode

text \<open>An optional field of the configuration is \<open>None\<close> when it is \<open>undefined\<close>.\<close>

record UserConfig =
  min_match_score :: "int option"
  max_ghost_score :: "int option"
  max_age_days :: "int option"
  require_salary :: "bool option"
  work_mode :: "work_mode option"
  role_keywords :: "jsstring list option"
  search_sites :: "jsstring list option"

text \<open>Of an analysis result, \<open>evaluateFilters\<close> reads the two scores only.\<close>

record AnalysisResult =
  match_score :: int
  ghost_score :: int

record FilterCheck =
  name :: jsstring
  passed :: bool
  reason :: jsstring

text \<open>A number inside a template literal: scores, thresholds and ages are
  integers, printed in decimal (below \<open>1e21\<close> in magnitude, where JavaScript
  prints all digits).\<close>

fun showNat :: "nat \<Rightarrow> jsstring" where
  "showNat n = (if n < 10 then [of_nat (48 + n)]
                else showNat (n div 10) @ [of_nat (48 + n mod 10)])"

declare showNat.simps [simp del]

definition showInt :: "int \<Rightarrow> jsstring" where
  "showInt i = (if i < 0 then lit ''-'' @ showNat (nat (- i)) else showNat (nat i))"

definition modeName :: "work_mode \<Rightarrow> jsstring" where
  "modeName m = (case m of Remote \<Rightarrow> lit ''remote'' | Hybrid \<Rightarrow> lit ''hybrid''
                 | Onsite \<Rightarrow> lit ''onsite'' | AnyMode \<Rightarrow> lit ''any'')"

text \<open>The table \<open>keywords\<close>; a mode without an entry gets \<open>[]\<close> from \<open>??\<close>.\<close>

definition modeKeywords :: "work_mode \<Rightarrow> jsstring list" where
  "modeKeywords m =
     (case m of
        Remote \<Rightarrow> [lit ''remote'', lit ''zdaln'', lit ''home office'', lit ''work from home'']
      | Hybrid \<Rightarrow> [lit ''hybrid'', lit ''hybrydow'']
      | Onsite \<Rightarrow> [lit ''on-site'', lit ''onsite'', lit ''in office'', lit ''stacjonarnie'',
                    lit ''biuro'']
      | AnyMode \<Rightarrow> [])"

definition salaryKw :: "jsstring list" where
  "salaryKw = [lit ''salary'', lit ''wynagrodzenie'', lit ''z'' @ [0x142], lit ''pln'',
               lit ''eur'', lit ''usd'', lit ''b2b'', lit ''uop'', lit ''umowa'']"

text \<open>
  \<open>evaluateFilters\<close> pushes onto \<open>checks\<close> in six consecutive \<open>if\<close> statements;
  the embedding threads the list through them in the same order. U+2265 and
  U+2264 are the comparison signs of the reasons, U+2014 the dash.
\<close>

definition evaluateFilters ::
  "runtime \<Rightarrow> UserConfig \<Rightarrow> AnalysisResult \<Rightarrow> jsstring \<Rightarrow> int option \<Rightarrow> FilterCheck list" where
  "evaluateFilters rt config result jdText posting_age_days =
     (let checks = [];
          checks =
            (case min_match_score config of
               None \<Rightarrow> checks
             | Some minScore \<Rightarrow>
                 let pass = (match_score result \<ge> minScore)
                 in checks @ [\<lparr>name = lit ''Match Score'', passed = pass,
                      reason = showInt (match_score result) @ lit '' '' @
                        (if pass then [0x2265] else lit ''<'') @ lit '' '' @
                        showInt minScore\<rparr>]);
          checks =
            (case max_ghost_score config of
               None \<Rightarrow> checks
             | Some maxGhost \<Rightarrow>
                 let pass = (ghost_score result \<le> maxGhost)
                 in checks @ [\<lparr>name = lit ''Ghost Risk'', passed = pass,
                      reason = showInt (ghost_score result) @ lit '' '' @
                        (if pass then [0x2264] else lit ''>'') @ lit '' '' @
                        showInt maxGhost\<rparr>]);
          checks =
            (case max_age_days config of
               None \<Rightarrow> checks
             | Some maxAge \<Rightarrow>
                 let pass = (case posting_age_days of None \<Rightarrow> True | Some age \<Rightarrow> age \<le> maxAge)
                 in checks @ [\<lparr>name = lit ''Freshness'', passed = pass,
                      reason =
                        (case posting_age_days of
                           None \<Rightarrow> lit ''Posting date unknown '' @ [0x2014] @
                                   lit '' cannot verify''
                         | Some age \<Rightarrow> showInt age @ lit ''d '' @
                             (if pass then [0x2264] else lit ''>'') @ lit '' '' @
                             showInt maxAge @ lit ''d'')\<rparr>]);
          checks =
            (case work_mode config of
               None \<Rightarrow> checks
             | Some mode \<Rightarrow>
                 if mode = AnyMode then checks
                 else
                   let jdLower = toLowerCase rt jdText;
                       kws = modeKeywords mode;
                       found = find (\<lambda>k. includesStr jdLower k) kws;
                       pass = (found \<noteq> None)
                   in checks @ [\<lparr>name = lit ''Work Mode'', passed = pass,
                        reason = (if pass then modeName mode @ lit '' detected''
                                  else modeName mode @ lit '' required, not found in JD'')\<rparr>]);
          checks =
            (if require_salary config = Some True
             then
               let jdLower = toLowerCase rt jdText;
                   pass = list_ex (\<lambda>k. includesStr jdLower k) salaryKw
               in checks @ [\<lparr>name = lit ''Salary Visible'', passed = pass,
                    reason = (if pass then lit ''Salary information detected in JD''
                              else lit ''No salary information found'')\<rparr>]
             else checks);
          checks =
            (case role_keywords config of
               None \<Rightarrow> checks
             | Some kwds \<Rightarrow>
                 if length kwds > 0
                 then
                   let jdLower = toLowerCase rt jdText;
                       matched = filter (\<lambda>k. includesStr jdLower (toLowerCase rt k)) kwds;
                       pass = (length matched > 0)
                   in checks @ [\<lparr>name = lit ''Role Keywords'', passed = pass,
                        reason = (if pass then lit ''Matched: '' @ joinWith (lit '', '') matched
                                  else lit ''None of ['' @ joinWith (lit '', '') kwds @
                                       lit ''] found in JD'')\<rparr>]
                 else checks)
      in checks)"


section \<open>Job discovery (scout/jobScout.ts)\<close>

subsection \<open>Data\<close>

text \<open>\<open>age_days?: number | null\<close> of a raw result: left out, \<open>null\<close>, or a number.\<close>

datatype raw_age = AgeUndefined | AgeNull | AgeNumber jsnum

record RawResult =
  raw_url :: jsstring
  raw_title :: jsstring
  raw_snippet :: jsstring
  raw_site :: jsstring
  raw_age_days :: raw_age

text \<open>Of an entry of the application log, discovery reads \<open>url\<close> and \<open>date\<close>.\<close>

record ApplicationEntry =
  entry_url :: jsstring
  entry_date :: jsstring

text \<open>
  What a run does besides computing its result, in the order it happens: the
  requests sent, the console lines (site and count of \<open>console.log\<close>, site of
  \<open>console.warn\<close>), the pauses in milliseconds; and for the retry executor the
  calls of the wrapped operation and the line announcing a wait.
\<close>

datatype effect =
    HttpGet jsstring
  | ConsoleLog jsstring nat
  | ConsoleWarn jsstring
  | Sleep nat
  | MessagesCreate
  | StdoutRetry nat nat

subsection \<open>Responses of the network\<close>

text \<open>
  The feed, as cheerio hands it over: for each \<open>item\<close> element the text of its
  children, the empty string for a missing child.
\<close>

record FeedItem =
  item_title :: jsstring
  item_link :: jsstring
  item_guid :: jsstring
  item_description :: jsstring
  item_pubDate :: jsstring
  item_dcDate :: jsstring

text \<open>
  A JSON-LD script block of the page: its text does not parse, or evaluating
  \<open>parsed['@type']\<close> throws (\<open>Unparsable\<close>); it is no \<open>CollectionPage\<close> with an array
  \<open>hasPart\<close> (\<open>NotCollection\<close>); or it is one, with its parts. A part on which
  \<open>item.url\<close> or \<open>url.split\<close> throws is \<open>Malformed\<close>; otherwise it has a string
  \<open>url\<close> or none.
\<close>

datatype ld_item = Malformed | Part "jsstring option"

datatype ld_script = Unparsable | NotCollection | Collection "ld_item list"

text \<open>
  An element of the \<open>results\<close> array of a meta-search answer: \<open>BadEntry\<close> is an
  element whose property access throws (\<open>null\<close>), an \<open>Entry\<close> has the optional
  strings \<open>url\<close>, \<open>title\<close> and \<open>content\<close>.
\<close>

datatype searx_result = BadEntry | Entry "jsstring option" "jsstring option" "jsstring option"

text \<open>
  The answers of the network during one run. A request that throws (no
  connection, timeout, status outside 2xx) is \<open>None\<close>. The first argument is
  the position of the site in the list of the run, so that the same request may
  be answered differently later in the run. For the meta-search the further
  arguments are the instance and the query; an answer without a \<open>results\<close> field
  is \<open>Some []\<close>, as \<open>?? []\<close> makes it, and an answer whose \<open>results\<close> is no array is
  \<open>None\<close>, since it is skipped or throws inside the \<open>try\<close>.
\<close>

record network =
  rssFeed :: "nat \<Rightarrow> FeedItem list option"
  justJoinPage :: "nat \<Rightarrow> ld_script list option"
  searxSearch :: "nat \<Rightarrow> jsstring \<Rightarrow> jsstring \<Rightarrow> searx_result list option"

subsection \<open>fetchNoFluffJobsRSS\<close>

text \<open>
  \<open>replace(/<[^>]+>/g, ' ')\<close>: from a \<open><\<close> the class \<open>[^>]+\<close> runs to the next
  \<open>>\<close>, so there is a match when that run is not empty and a \<open>>\<close> follows it;
  the search goes on behind the match.
\<close>

function stripTags :: "jsstring \<Rightarrow> jsstring" where
  "stripTags [] = []"
| "stripTags (c # cs) =
     (if c = 0x3C \<and> takeWhile (\<lambda>x. x \<noteq> 0x3E) cs \<noteq> [] \<and> dropWhile (\<lambda>x. x \<noteq> 0x3E) cs \<noteq> []
      then 0x20 # stripTags (drop 1 (dropWhile (\<lambda>x. x \<noteq> 0x3E) cs))
      else c # stripTags cs)"
  by pat_completeness auto
termination
proof (relation "measure length")
  show "wf (measure length)" by simp
next
  fix c :: jschar and cs :: jsstring
  have "length (dropWhile (\<lambda>x. x \<noteq> 0x3E) cs) \<le> length cs"
    by (rule length_dropWhile_le)
  then show "(drop 1 (dropWhile (\<lambda>x. x \<noteq> 0x3E) cs), c # cs) \<in> measure length"
    by simp
next
  fix c :: jschar and cs :: jsstring
  show "(cs, c # cs) \<in> measure length" by simp
qed

text \<open>\<open>replace(/\s+/g, ' ')\<close> and \<open>replace(/-+/g, ' ')\<close>: every maximal run of the
  class becomes one space.\<close>

function collapseRuns :: "(jschar \<Rightarrow> bool) \<Rightarrow> jsstring \<Rightarrow> jsstring" where
  "collapseRuns P [] = []"
| "collapseRuns P (c # cs) =
     (if P c then 0x20 # collapseRuns P (dropWhile P cs) else c # collapseRuns P cs)"
  by pat_completeness auto
termination
proof (relation "measure (\<lambda>(P, s). length s)")
  show "wf (measure (\<lambda>(P :: jschar \<Rightarrow> bool, s :: jsstring). length s))" by simp
next
  fix P :: "jschar \<Rightarrow> bool" and c :: jschar and cs :: jsstring
  have "length (dropWhile P cs) \<le> length cs" by (rule length_dropWhile_le)
  then show "((P, dropWhile P cs), (P, c # cs)) \<in> measure (\<lambda>(P, s). length s)"
    by simp
next
  fix P :: "jschar \<Rightarrow> bool" and c :: jschar and cs :: jsstring
  show "((P, cs), (P, c # cs)) \<in> measure (\<lambda>(P, s). length s)" by simp
qed

text \<open>The callback of \<open>each\<close> on one item: \<open>None\<close> when it returns without a
  push, the pushed result otherwise. \<open>kw\<close> is the lower-cased keyword list.\<close>

definition feedEntry :: "runtime \<Rightarrow> jsstring list \<Rightarrow> FeedItem \<Rightarrow> RawResult option" where
  "feedEntry rt kw el =
     (let title = item_title el;
          link = (if item_link el \<noteq> [] then item_link el else item_guid el)
      in if link = [] \<or> title = [] then None
         else
           let rawDesc = item_description el;
               snippet = take 200 (trim (collapseRuns isWhiteSpace (stripTags rawDesc)));
               pubDate = (if item_pubDate el \<noteq> [] then item_pubDate el else item_dcDate el);
               searchText = toLowerCase rt (title @ lit '' '' @ snippet)
           in if list_ex (\<lambda>k. includesStr searchText k) kw
              then Some \<lparr>raw_url = link, raw_title = title, raw_snippet = snippet,
                         raw_site = lit ''nofluffjobs.com'',
                         raw_age_days = (case rssDateToAgeDays rt pubDate of
                                           None \<Rightarrow> AgeNull
                                         | Some n \<Rightarrow> AgeNumber n)\<rparr>
              else None)"

fun feedEntries :: "runtime \<Rightarrow> jsstring list \<Rightarrow> FeedItem list \<Rightarrow> RawResult list" where
  "feedEntries rt kw [] = []"
| "feedEntries rt kw (el # els) =
     (case feedEntry rt kw el of
        None \<Rightarrow> feedEntries rt kw els
      | Some r \<Rightarrow> r # feedEntries rt kw els)"

text \<open>An adapter returns its results, or \<open>None\<close> when it throws, and the
  requests it sent.\<close>

definition fetchNoFluffJobsRSS ::
  "runtime \<Rightarrow> network \<Rightarrow> nat \<Rightarrow> jsstring list \<Rightarrow> RawResult list option \<times> effect list" where
  "fetchNoFluffJobsRSS rt net i keywords =
     (case rssFeed net i of
        None \<Rightarrow> (None, [HttpGet (lit ''https://nofluffjobs.com/rss'')])
      | Some items \<Rightarrow>
          (let kw = map (toLowerCase rt) keywords;
               results = feedEntries rt kw items
           in (Some (take 30 results), [HttpGet (lit ''https://nofluffjobs.com/rss'')])))"

subsection \<open>fetchJustJoinIt\<close>

text \<open>The \<open>for\<close> loop over \<open>hasPart\<close>; a malformed part throws into the \<open>catch\<close>
  around the loop, which ends the block and keeps what was pushed before.\<close>

fun collectParts :: "runtime \<Rightarrow> jsstring list \<Rightarrow> ld_item list \<Rightarrow> RawResult list" where
  "collectParts rt kw [] = []"
| "collectParts rt kw (Malformed # rest) = []"
| "collectParts rt kw (Part u # rest) =
     (let url = (case u of None \<Rightarrow> [] | Some s \<Rightarrow> s)
      in if url = [] then collectParts rt kw rest
         else
           let slug = (case rev (splitOn 0x2F url) of [] \<Rightarrow> [] | p # _ \<Rightarrow> p)
           in if \<not> list_ex (\<lambda>k. includesStr slug k) kw then collectParts rt kw rest
              else \<lparr>raw_url = url, raw_title = slugToTitle rt slug,
                    raw_snippet = collapseRuns (\<lambda>c. c = 0x2D) slug,
                    raw_site = lit ''justjoin.it'', raw_age_days = AgeNull\<rparr>
                   # collectParts rt kw rest)"

definition scriptParts :: "runtime \<Rightarrow> jsstring list \<Rightarrow> ld_script \<Rightarrow> RawResult list" where
  "scriptParts rt kw el =
     (case el of
        Unparsable \<Rightarrow> []
      | NotCollection \<Rightarrow> []
      | Collection hasPart \<Rightarrow> collectParts rt kw hasPart)"

definition fetchJustJoinIt ::
  "runtime \<Rightarrow> network \<Rightarrow> nat \<Rightarrow> jsstring list \<Rightarrow> RawResult list option \<times> effect list" where
  "fetchJustJoinIt rt net i keywords =
     (case justJoinPage net i of
        None \<Rightarrow> (None, [HttpGet (lit ''https://justjoin.it/'')])
      | Some scripts \<Rightarrow>
          (let kw = map (toLowerCase rt) keywords
           in (Some (concat (map (scriptParts rt kw) scripts)),
               [HttpGet (lit ''https://justjoin.it/'')])))"

subsection \<open>searchViaSearXNG\<close>

definition SEARXNG_INSTANCES :: "jsstring list" where
  "SEARXNG_INSTANCES =
     [lit ''https://searx.be'', lit ''https://searxng.site'', lit ''https://darmarit.org/searx'']"

text \<open>The \<open>map\<close> over the first ten results: \<open>None\<close> when an element throws,
  which leaves the \<open>try\<close> block before its \<open>return\<close>.\<close>

fun mapResults :: "jsstring \<Rightarrow> searx_result list \<Rightarrow> RawResult list option" where
  "mapResults site [] = Some []"
| "mapResults site (BadEntry # rest) = None"
| "mapResults site (Entry u t c # rest) =
     (case mapResults site rest of
        None \<Rightarrow> None
      | Some rs \<Rightarrow>
          Some (\<lparr>raw_url = (case u of None \<Rightarrow> [] | Some x \<Rightarrow> x),
                 raw_title = (case t of None \<Rightarrow> [] | Some x \<Rightarrow> x),
                 raw_snippet = (case c of None \<Rightarrow> [] | Some x \<Rightarrow> x),
                 raw_site = site, raw_age_days = AgeUndefined\<rparr> # rs))"

text \<open>The loop over the instances; \<open>get\<close> answers the request to an instance.\<close>

fun searxLoop ::
  "(jsstring \<Rightarrow> searx_result list option) \<Rightarrow> jsstring \<Rightarrow> jsstring list \<Rightarrow>
   RawResult list \<times> effect list" where
  "searxLoop get site [] = ([], [])"
| "searxLoop get site (instance # rest) =
     (let sent = HttpGet (instance @ lit ''/search'');
          next = (case searxLoop get site rest of (rs, fx) \<Rightarrow> (rs, sent # fx))
      in case get instance of
           None \<Rightarrow> next
         | Some results \<Rightarrow>
             if length results > 0
             then (case mapResults site (take 10 results) of
                     None \<Rightarrow> next
                   | Some mapped \<Rightarrow> (filter (\<lambda>res. raw_url res \<noteq> []) mapped, [sent]))
             else next)"

definition searchViaSearXNG ::
  "network \<Rightarrow> nat \<Rightarrow> jsstring \<Rightarrow> jsstring list \<Rightarrow> RawResult list \<times> effect list" where
  "searchViaSearXNG net i site keywords =
     (let q = lit ''site:'' @ site @ lit '' '' @ joinWith (lit '' '') keywords
      in searxLoop (\<lambda>instance. searxSearch net i instance q) site SEARXNG_INSTANCES)"


subsection \<open>discoverJobs\<close>

definition fetchSite ::
  "runtime \<Rightarrow> network \<Rightarrow> jsstring list \<Rightarrow> nat \<Rightarrow> jsstring \<Rightarrow>
   RawResult list option \<times> effect list" where
  "fetchSite rt net keywords i site =
     (if site = lit ''nofluffjobs.com'' then fetchNoFluffJobsRSS rt net i keywords
      else if site = lit ''justjoin.it'' then fetchJustJoinIt rt net i keywords
      else (case searchViaSearXNG net i site keywords of (results, fx) \<Rightarrow> (Some results, fx)))"

text \<open>
  The loop over the sites, with the array \<open>raw\<close> and the effects so far as its
  state. When the adapter returns, its results are pushed, a line is logged and
  the loop pauses 600 ms; when it throws, the \<open>catch\<close> logs a warning. Either way
  the loop goes on with the next site.
\<close>

fun scoutLoop ::
  "runtime \<Rightarrow> network \<Rightarrow> jsstring list \<Rightarrow> nat \<Rightarrow> jsstring list \<Rightarrow>
   RawResult list \<times> effect list \<Rightarrow> RawResult list \<times> effect list" where
  "scoutLoop rt net keywords i [] st = st"
| "scoutLoop rt net keywords i (rawSite # rest) (raw, fx) =
     (let site = normalizeSite rt rawSite
      in case fetchSite rt net keywords i site of
           (Some results, sent) \<Rightarrow>
             scoutLoop rt net keywords (Suc i) rest
               (raw @ results, fx @ sent @ [ConsoleLog site (length results), Sleep 600])
         | (None, sent) \<Rightarrow>
             scoutLoop rt net keywords (Suc i) rest (raw, fx @ sent @ [ConsoleWarn site]))"

text \<open>The \<open>filter\<close> that removes duplicates, with the set \<open>seenRaw\<close> it fills.\<close>

fun dedupe :: "jsstring set \<Rightarrow> RawResult list \<Rightarrow> RawResult list" where
  "dedupe seenRaw [] = []"
| "dedupe seenRaw (r # rs) =
     (if raw_url r = [] \<or> raw_url r \<in> seenRaw then dedupe seenRaw rs
      else r # dedupe (insert (raw_url r) seenRaw) rs)"

record DiscoveryResult =
  url :: jsstring
  title :: jsstring
  company :: "jsstring option"
  site :: jsstring
  snippet :: jsstring
  age_days :: "jsnum option"
  has_salary :: bool
  ghost_preflag :: bool
  already_seen :: bool
  seen_days_ago :: "jsnum option"

text \<open>The callback of the final \<open>map\<close>. \<open>r.age_days ?? null\<close> keeps a number,
  \<open>NaN\<close> too, and turns a missing value and \<open>null\<close> into \<open>null\<close>.\<close>

definition toDiscoveryResult ::
  "runtime \<Rightarrow> ApplicationEntry list \<Rightarrow> jsstring set \<Rightarrow> RawResult \<Rightarrow> DiscoveryResult" where
  "toDiscoveryResult rt log seenUrls r =
     (let alreadySeen = (raw_url r \<in> seenUrls);
          logEntry = (if alreadySeen then find (\<lambda>e. entry_url e = raw_url r) log else None);
          seenDaysAgo =
            (case logEntry of
               Some e \<Rightarrow>
                 Some (floorDays (jsMinus (Num (dateNow rt)) (dateGetTime rt (entry_date e))))
             | None \<Rightarrow> None)
      in \<lparr>url = raw_url r,
          title = raw_title r,
          company = extractCompany (raw_title r),
          site = raw_site r,
          snippet = raw_snippet r,
          age_days = (case raw_age_days r of AgeNumber n \<Rightarrow> Some n | _ \<Rightarrow> None),
          has_salary = hasSalary (raw_title r @ lit '' '' @ raw_snippet r),
          ghost_preflag = isGhostPreflag rt (raw_title r) (raw_snippet r),
          already_seen = alreadySeen,
          seen_days_ago = seenDaysAgo\<rparr>)"

text \<open>
  \<open>discoverJobs\<close>; \<open>log\<close> is what \<open>loadLog()\<close> returned, an array of entries. No
  statement outside the \<open>try\<close> of the loop can throw on such a log, so the
  result is a list, paired here with the effects of the run.
\<close>

definition discoverJobs ::
  "runtime \<Rightarrow> network \<Rightarrow> ApplicationEntry list \<Rightarrow> jsstring list \<Rightarrow> jsstring list \<Rightarrow>
   DiscoveryResult list \<times> effect list" where
  "discoverJobs rt net log keywords sites =
     (let seenUrls = set (map entry_url log)
      in case scoutLoop rt net keywords 0 sites ([], []) of
           (raw, fx) \<Rightarrow>
             (let unique = dedupe {} raw
              in (map (toDiscoveryResult rt log seenUrls) unique, fx)))"

subsection \<open>The handler of GET /api/scout (server.ts)\<close>

datatype response = Status200 "DiscoveryResult list" | Status400 jsstring

text \<open>
  \<open>config\<close> is what \<open>loadConfig()\<close> returned. \<open>!config.search_sites?.length\<close>
  holds for a missing list and for an empty one. The messages contain double
  quotes, code unit 0x22. The handler's \<open>catch\<close>, which answers 500, has no
  branch here: nothing in its \<open>try\<close> throws in this embedding.
\<close>

definition scoutHandler ::
  "runtime \<Rightarrow> network \<Rightarrow> UserConfig \<Rightarrow> ApplicationEntry list \<Rightarrow> response \<times> effect list" where
  "scoutHandler rt net config log =
     (case search_sites config of
        None \<Rightarrow> (Status400 (lit ''Add '' @ [0x22] @ lit ''search_sites'' @ [0x22] @
                   lit '' to jobhunter.config.json first (e.g. ['' @ [0x22] @
                   lit ''nofluffjobs.com'' @ [0x22] @ lit '', '' @ [0x22] @ lit ''pracuj.pl'' @
                   [0x22] @ lit ''])''), [])
      | Some sites \<Rightarrow>
          if length sites = 0
          then (Status400 (lit ''Add '' @ [0x22] @ lit ''search_sites'' @ [0x22] @
                   lit '' to jobhunter.config.json first (e.g. ['' @ [0x22] @
                   lit ''nofluffjobs.com'' @ [0x22] @ lit '', '' @ [0x22] @ lit ''pracuj.pl'' @
                   [0x22] @ lit ''])''), [])
          else
            (case role_keywords config of
               None \<Rightarrow> (Status400 (lit ''Add '' @ [0x22] @ lit ''role_keywords'' @ [0x22] @
                          lit '' to jobhunter.config.json first''), [])
             | Some kwds \<Rightarrow>
                 if length kwds = 0
                 then (Status400 (lit ''Add '' @ [0x22] @ lit ''role_keywords'' @ [0x22] @
                          lit '' to jobhunter.config.json first''), [])
                 else (case discoverJobs rt net log kwds sites of
                         (results, fx) \<Rightarrow> (Status200 results, fx))))"


section \<open>Retry with backoff (analyzer/claude.ts)\<close>

text \<open>What the wrapped call throws: an \<open>APIError\<close> with its optional status, or
  anything else; both carry their message.\<close>

datatype thrown = APIError "int option" jsstring | OtherError jsstring

definition isOverloaded :: "thrown \<Rightarrow> bool" where
  "isOverloaded err = (case err of APIError st _ \<Rightarrow> st = Some 529 | OtherError _ \<Rightarrow> False)"

definition RETRY_DELAYS_MS :: "nat list" where
  "RETRY_DELAYS_MS = [30000, 60000, 120000]"

text \<open>
  The \<open>for\<close> loop of \<open>callWithRetry\<close> from a given value of \<open>attempt\<close>; \<open>create n\<close>
  is what the wrapped call does when it is called in attempt \<open>n\<close>: it throws
  (\<open>Inl\<close>) or returns a message (\<open>Inr\<close>). The result is what \<open>callWithRetry\<close>
  throws or returns, with the calls, the announcements and the waits it made.
\<close>

function callWithRetryFrom ::
  "(nat \<Rightarrow> thrown + 'm) \<Rightarrow> nat \<Rightarrow> (thrown + 'm) \<times> effect list" where
  "callWithRetryFrom create attempt =
     (if attempt \<le> length RETRY_DELAYS_MS
      then (case create attempt of
              Inr message \<Rightarrow> (Inr message, [MessagesCreate])
            | Inl err \<Rightarrow>
                if isOverloaded err \<and> attempt < length RETRY_DELAYS_MS
                then (let delay = RETRY_DELAYS_MS ! attempt
                      in case callWithRetryFrom create (attempt + 1) of
                           (r, fx) \<Rightarrow>
                             (r, [MessagesCreate, StdoutRetry delay (attempt + 1), Sleep delay] @ fx))
                else (Inl err, [MessagesCreate]))
      else (Inl (OtherError (lit ''Unreachable'')), []))"
  by pat_completeness auto
termination
  by (relation "measure (\<lambda>(create, attempt). Suc (length RETRY_DELAYS_MS) - attempt)") auto

declare callWithRetryFrom.simps [simp del]

definition callWithRetry :: "(nat \<Rightarrow> thrown + 'm) \<Rightarrow> (thrown + 'm) \<times> effect list" where
  "callWithRetry create = callWithRetryFrom create 0"



section \<open>Observing a run\<close>

text \<open>The waits of a run in order, their sum, and the number of calls of the
  wrapped operation.\<close>

fun waits :: "effect list \<Rightarrow> nat list" where
  "waits [] = []"
| "waits (Sleep d # fx) = d # waits fx"
| "waits (_ # fx) = waits fx"

definition totalWait :: "effect list \<Rightarrow> nat" where
  "totalWait fx = sum_list (waits fx)"

definition attempts :: "effect list \<Rightarrow> nat" where
  "attempts fx = length (filter (\<lambda>e. e = MessagesCreate) fx)"

text \<open>An attempt ended in the overload condition.\<close>

definition overloadFailure :: "thrown + 'm \<Rightarrow> bool" where
  "overloadFailure outcome = (case outcome of Inl err \<Rightarrow> isOverloaded err | Inr _ \<Rightarrow> False)"


text \<open>
  An instance is usable when it answers with at least one result and none of
  the first ten is malformed; a site's contribution to a run is what its adapter
  returns, nothing when the adapter throws; and each site leaves one console
  line, a warning when its adapter throws.
\<close>

definition usable :: "(jsstring \<Rightarrow> searx_result list option) \<Rightarrow> jsstring \<Rightarrow> bool" where
  "usable get instance =
     (case get instance of
        None \<Rightarrow> False
      | Some results \<Rightarrow> results \<noteq> [] \<and> BadEntry \<notin> set (take 10 results))"

text \<open>The addresses a run requested, in order.\<close>

fun requests :: "effect list \<Rightarrow> jsstring list" where
  "requests [] = []"
| "requests (HttpGet u # fx) = u # requests fx"
| "requests (_ # fx) = requests fx"

definition siteResults ::
  "runtime \<Rightarrow> network \<Rightarrow> jsstring list \<Rightarrow> nat \<times> jsstring \<Rightarrow> RawResult list" where
  "siteResults rt net keywords p =
     (case fst (fetchSite rt net keywords (fst p) (normalizeSite rt (snd p))) of
        None \<Rightarrow> []
      | Some results \<Rightarrow> results)"

definition siteLine ::
  "runtime \<Rightarrow> network \<Rightarrow> jsstring list \<Rightarrow> nat \<times> jsstring \<Rightarrow> effect" where
  "siteLine rt net keywords p =
     (case fst (fetchSite rt net keywords (fst p) (normalizeSite rt (snd p))) of
        None \<Rightarrow> ConsoleWarn (normalizeSite rt (snd p))
      | Some results \<Rightarrow> ConsoleLog (normalizeSite rt (snd p)) (length results))"

fun consoleLines :: "effect list \<Rightarrow> effect list" where
  "consoleLines [] = []"
| "consoleLines (ConsoleLog s n # fx) = ConsoleLog s n # consoleLines fx"
| "consoleLines (ConsoleWarn s # fx) = ConsoleWarn s # consoleLines fx"
| "consoleLines (_ # fx) = consoleLines fx"

text \<open>The listings a run gathers from its sites, before duplicates go.\<close>

definition gathered ::
  "runtime \<Rightarrow> network \<Rightarrow> jsstring list \<Rightarrow> jsstring list \<Rightarrow> RawResult list" where
  "gathered rt net keywords sites = fst (scoutLoop rt net keywords 0 sites ([], []))"


section \<open>Reading the specification\<close>

text \<open>The names of the rules that a configuration activates, in the order the
  specification fixes for them.\<close>

definition spec_activeRules :: "UserConfig \<Rightarrow> jsstring list" where
  "spec_activeRules config =
     (if min_match_score config \<noteq> None then [lit ''Match Score''] else []) @
     (if max_ghost_score config \<noteq> None then [lit ''Ghost Risk''] else []) @
     (if max_age_days config \<noteq> None then [lit ''Freshness''] else []) @
     (if work_mode config \<noteq> None \<and> work_mode config \<noteq> Some AnyMode
      then [lit ''Work Mode''] else []) @
     (if require_salary config = Some True then [lit ''Salary Visible''] else []) @
     (if role_keywords config \<noteq> None \<and> role_keywords config \<noteq> Some []
      then [lit ''Role Keywords''] else [])"


text \<open>
  A title follows a suffix convention with company \<open>c\<close> when it ends in the
  separator followed by \<open>c\<close>, where \<open>c\<close> has between \<open>lo\<close> and \<open>hi\<close> code units
  on one line; \<open>ic\<close> says whether the separator is read without regard to case.
  The company of a title under a convention is the longest such \<open>c\<close>.
\<close>

definition spec_titleSuffix ::
  "bool \<Rightarrow> jsstring \<Rightarrow> nat \<Rightarrow> nat \<Rightarrow> jsstring \<Rightarrow> jsstring \<Rightarrow> bool" where
  "spec_titleSuffix ic sep lo hi t c =
     (\<exists>pre m. t = pre @ m @ c \<and> list_all2 (charMatches ic) sep m \<and> dotGroup lo hi c)"

definition spec_company ::
  "bool \<Rightarrow> jsstring \<Rightarrow> nat \<Rightarrow> nat \<Rightarrow> jsstring \<Rightarrow> jsstring \<Rightarrow> bool" where
  "spec_company ic sep lo hi t c =
     (spec_titleSuffix ic sep lo hi t c \<and>
      (\<forall>c'. spec_titleSuffix ic sep lo hi t c' \<longrightarrow> length c' \<le> length c))"


section \<open>Sample inputs\<close>

text \<open>A runtime whose case mappings cover ASCII, whose clock stands at
  2023-11-14T22:13:20Z and which knows the time values of two dates.\<close>

definition asciiLower :: "jsstring \<Rightarrow> jsstring" where
  "asciiLower s = map (\<lambda>c. if 0x41 \<le> c \<and> c \<le> 0x5A then c + 0x20 else c) s"

definition asciiUpper :: "jsstring \<Rightarrow> jsstring" where
  "asciiUpper s = map (\<lambda>c. if 0x61 \<le> c \<and> c \<le> 0x7A then c - 0x20 else c) s"

definition sampleGetTime :: "jsstring \<Rightarrow> jsnum" where
  "sampleGetTime s =
     (if s = lit ''2023-11-10'' then Num 1699574400000
      else if s = lit ''2023-11-20'' then Num 1700438400000
      else NaN)"

definition sampleRuntime :: runtime where
  "sampleRuntime =
     \<lparr>toLowerCase = asciiLower, toUpperCase = asciiUpper, dateGetTime = sampleGetTime,
      urlHostname = (\<lambda>s. None), dateNow = 1700000000000\<rparr>"

text \<open>A network on which every request fails.\<close>

definition offline :: network where
  "offline = \<lparr>rssFeed = (\<lambda>i. None), justJoinPage = (\<lambda>i. None),
              searxSearch = (\<lambda>i instance q. None)\<rparr>"

definition emptyConfig :: UserConfig where
  "emptyConfig =
     \<lparr>min_match_score = None, max_ghost_score = None, max_age_days = None,
      require_salary = None, work_mode = None, role_keywords = None, search_sites = None\<rparr>"

definition sampleConfig :: UserConfig where
  "sampleConfig =
     \<lparr>min_match_score = Some 50, max_ghost_score = None, max_age_days = Some 10,
      require_salary = Some False, work_mode = Some AnyMode,
      role_keywords = Some [lit ''QA'', lit ''test''],
      search_sites = Some [lit ''nofluffjobs.com'', lit ''pracuj.pl'']\<rparr>"

text \<open>A wrapped call that is overloaded twice and then answers, and one that
  fails for another reason.\<close>

definition twiceOverloaded :: "nat \<Rightarrow> thrown + jsstring" where
  "twiceOverloaded n =
     (if n < 2 then Inl (APIError (Some 529) (lit ''overloaded'')) else Inr (lit ''ok''))"

definition badRequest :: "nat \<Rightarrow> thrown + jsstring" where
  "badRequest n = Inl (APIError (Some 400) (lit ''bad request''))"

text \<open>A wrapped call that is overloaded every time.\<close>

definition alwaysOverloaded :: "nat \<Rightarrow> thrown + jsstring" where
  "alwaysOverloaded n = Inl (APIError (Some 529) (lit ''overloaded''))"

text \<open>
  A network on which the feed and the first meta-search instance fail and the
  second instance answers every query with the same two results, the second of
  them twice; and one on which the second instance answers with twelve.
\<close>

definition sampleEntry :: "nat \<Rightarrow> searx_result" where
  "sampleEntry k =
     Entry (Some (lit ''https://jobs.example/'' @ showNat k)) (Some (lit ''QA @ Acme'')) None"

definition sampleNet :: network where
  "sampleNet =
     \<lparr>rssFeed = (\<lambda>i. None), justJoinPage = (\<lambda>i. None),
      searxSearch = (\<lambda>i instance q.
        if instance = lit ''https://searxng.site''
        then Some [sampleEntry 1, sampleEntry 2, sampleEntry 2] else None)\<rparr>"

definition crowdedNet :: network where
  "crowdedNet =
     \<lparr>rssFeed = (\<lambda>i. None), justJoinPage = (\<lambda>i. None),
      searxSearch = (\<lambda>i instance q.
        if instance = lit ''https://searxng.site''
        then Some (map sampleEntry [1, 2, 3, 4, 5, 6, 7, 8, 9, 10, 11, 12]) else None)\<rparr>"

text \<open>A network on which the first meta-search instance answers with one result
  that has a title and no URL, and the other instances answer with a listing.\<close>

definition urllessNet :: network where
  "urllessNet =
     \<lparr>rssFeed = (\<lambda>i. None), justJoinPage = (\<lambda>i. None),
      searxSearch = (\<lambda>i instance q.
        if instance = lit ''https://searx.be''
        then Some [Entry None (Some (lit ''QA @ Acme'')) None]
        else Some [sampleEntry 1])\<rparr>"


definition pastLog :: "ApplicationEntry list" where
  "pastLog = [\<lparr>entry_url = lit ''https://jobs.example/2'', entry_date = lit ''2023-11-10''\<rparr>]"

text \<open>A feed item that names the keyword and whose publish date is no date.\<close>

definition undatedItem :: FeedItem where
  "undatedItem =
     \<lparr>item_title = lit ''QA Engineer @ Acme'', item_link = lit ''https://nofluffjobs.com/job/1'',
      item_guid = [], item_description = lit ''<p>Test  automation</p>'',
      item_pubDate = lit ''soon'', item_dcDate = []\<rparr>"


section \<open>Evaluating characters\<close>

lemmas char_eval = lit_def charMatches_def canonicalize_def isDigit_def isWhiteSpace_def
  isLineTerminator_def isWordChar_def


section \<open>The string helpers are what they stand for\<close>

lemma matchesAt_prefix: "matchesAt False p s \<longleftrightarrow> prefix p s"
proof (induction p arbitrary: s)
  case Nil
  then show ?case by simp
next
  case (Cons a p)
  then show ?case by (cases s) (auto simp: charMatches_def)
qed

lemma includesStr_sublist: "includesStr s k \<longleftrightarrow> sublist k s"
proof (induction s)
  case Nil
  then show ?case by simp
next
  case (Cons c cs)
  then show ?case
    by (cases k) (auto simp: matchesAt_prefix sublist_Cons_right simp del: matchesAt.simps)
qed

lemma splitOn_nonempty: "splitOn sep s \<noteq> []"
  by (induction s) (auto split: list.splits)

lemma joinWith_splitOn: "joinWith [sep] (splitOn sep s) = s"
proof (induction s)
  case Nil
  then show ?case by simp
next
  case (Cons c cs)
  obtain p ps where ps: "splitOn sep cs = p # ps"
    using splitOn_nonempty[of sep cs] by (cases "splitOn sep cs") auto
  with Cons show ?case by (cases ps) auto
qed

text \<open>The examples of the specification for the salary detector and the
  ghost preflag.\<close>

lemma salary_examples:
  "hasSalary (lit ''16000-25000 PLN B2B'')"
  "\<not> hasSalary (lit ''competitive package'')"
  by code_simp+

lemma ghost_example:
  "isGhostPreflag sampleRuntime (lit ''QA Engineer'')
     (lit ''Ongoing recruitment for future opportunities'')"
  by code_simp


section \<open>The shape of a discovery run\<close>

lemma discoverJobs_fst:
  "fst (discoverJobs rt net log keywords sites) =
     map (toDiscoveryResult rt log (set (map entry_url log)))
       (dedupe {} (gathered rt net keywords sites))"
  by (simp add: discoverJobs_def gathered_def split: prod.splits)

lemma discoverJobs_snd:
  "snd (discoverJobs rt net log keywords sites) =
     snd (scoutLoop rt net keywords 0 sites ([], []))"
  by (simp add: discoverJobs_def split: prod.splits)


section \<open>The retry executor\<close>

lemma waits_append: "waits (xs @ ys) = waits xs @ waits ys"
  by (induction xs rule: waits.induct) auto

lemma retry_from:
  assumes "a \<le> k" "k \<le> 3"
    and "\<forall>j. a \<le> j \<and> j < k \<longrightarrow> overloadFailure (create j)"
    and "k = 3 \<or> \<not> overloadFailure (create k)"
  shows "fst (callWithRetryFrom create a) = create k \<and>
         waits (snd (callWithRetryFrom create a)) = take (k - a) (drop a RETRY_DELAYS_MS) \<and>
         attempts (snd (callWithRetryFrom create a)) = k - a + 1 \<and>
         snd (callWithRetryFrom create a) =
           concat (map (\<lambda>j. [MessagesCreate, StdoutRetry (RETRY_DELAYS_MS ! j) (Suc j),
                               Sleep (RETRY_DELAYS_MS ! j)]) [a..<k]) @ [MessagesCreate]"
  using assms
proof (induction a rule: inc_induct)
  case base
  then show ?case
    by (subst (1 2 3 4) callWithRetryFrom.simps)
       (auto simp: RETRY_DELAYS_MS_def overloadFailure_def attempts_def split: sum.splits)
next
  case (step n)
  then have ov: "overloadFailure (create n)" and n3: "n < 3" by auto
  then obtain err where err: "create n = Inl err" "isOverloaded err"
    by (auto simp: overloadFailure_def split: sum.splits)
  have ih: "fst (callWithRetryFrom create (Suc n)) = create k \<and>
         waits (snd (callWithRetryFrom create (Suc n))) = take (k - Suc n) (drop (Suc n) RETRY_DELAYS_MS) \<and>
         attempts (snd (callWithRetryFrom create (Suc n))) = k - Suc n + 1 \<and>
         snd (callWithRetryFrom create (Suc n)) =
           concat (map (\<lambda>j. [MessagesCreate, StdoutRetry (RETRY_DELAYS_MS ! j) (Suc j),
                               Sleep (RETRY_DELAYS_MS ! j)]) [Suc n..<k]) @ [MessagesCreate]"
    using step by auto
  have up: "[n..<k] = n # [Suc n..<k]" using step.hyps by (simp add: upt_conv_Cons)
  have unfold: "callWithRetryFrom create n =
      (case callWithRetryFrom create (Suc n) of
         (r, fx) \<Rightarrow> (r, [MessagesCreate, StdoutRetry (RETRY_DELAYS_MS ! n) (Suc n), Sleep (RETRY_DELAYS_MS ! n)] @ fx))"
    using err n3 by (subst callWithRetryFrom.simps) (simp add: RETRY_DELAYS_MS_def Let_def)
  have len: "n < length RETRY_DELAYS_MS" using n3 by (simp add: RETRY_DELAYS_MS_def)
  have kn: "k - n = Suc (k - Suc n)" using step.hyps by simp
  have dr: "take (k - n) (drop n RETRY_DELAYS_MS) = RETRY_DELAYS_MS ! n # take (k - Suc n) (drop (Suc n) RETRY_DELAYS_MS)"
    unfolding kn Cons_nth_drop_Suc[OF len, symmetric] by simp
  show ?case using ih step.hyps
    by (simp add: unfold dr up split: prod.splits) (auto simp: attempts_def)
qed


lemma retry_index:
  fixes create :: "nat \<Rightarrow> thrown + 'm"
  obtains k where "k \<le> 3" "\<forall>j<k. overloadFailure (create j)"
    "k = 3 \<or> \<not> overloadFailure (create k)"
proof (cases "\<exists>j<3. \<not> overloadFailure (create j)")
  case True
  define k where "k = (LEAST j. \<not> overloadFailure (create j))"
  from True obtain j where j: "j < 3" "\<not> overloadFailure (create j)" by blast
  have "\<not> overloadFailure (create k)" unfolding k_def using j(2) by (rule LeastI)
  moreover have "k \<le> j" unfolding k_def using j(2) by (rule Least_le)
  moreover have "\<forall>i<k. overloadFailure (create i)"
    unfolding k_def using not_less_Least by blast
  ultimately show ?thesis using j(1) that[of k] by auto
next
  case False
  then show ?thesis using that[of 3] by auto
qed

lemma retry_start:
  fixes create :: "nat \<Rightarrow> thrown + 'm"
  assumes "k \<le> 3" and "\<forall>j<k. overloadFailure (create j)"
    and "k = 3 \<or> \<not> overloadFailure (create k)"
  shows "fst (callWithRetry create) = create k"
    and "snd (callWithRetry create) =
         concat (map (\<lambda>j. [MessagesCreate,
                             StdoutRetry ([30000, 60000, 120000] ! j) (Suc j),
                             Sleep ([30000, 60000, 120000] ! j)]) [0..<k]) @
         [MessagesCreate]"
    and "waits (snd (callWithRetry create)) = take k [30000, 60000, 120000]"
    and "attempts (snd (callWithRetry create)) = k + 1"
proof -
  have rf: "fst (callWithRetryFrom create 0) = create k \<and>
         waits (snd (callWithRetryFrom create 0)) = take (k - 0) (drop 0 RETRY_DELAYS_MS) \<and>
         attempts (snd (callWithRetryFrom create 0)) = k - 0 + 1 \<and>
         snd (callWithRetryFrom create 0) =
           concat (map (\<lambda>j. [MessagesCreate, StdoutRetry (RETRY_DELAYS_MS ! j) (Suc j),
                               Sleep (RETRY_DELAYS_MS ! j)]) [0..<k]) @ [MessagesCreate]"
    using assms by (intro retry_from) auto
  show "fst (callWithRetry create) = create k"
    using conjunct1[OF rf] by (simp add: callWithRetry_def)
  show "waits (snd (callWithRetry create)) = take k [30000, 60000, 120000]"
    using conjunct1[OF conjunct2[OF rf]] by (simp add: callWithRetry_def RETRY_DELAYS_MS_def)
  show "attempts (snd (callWithRetry create)) = k + 1"
    using conjunct1[OF conjunct2[OF conjunct2[OF rf]]] by (simp add: callWithRetry_def)
  show "snd (callWithRetry create) =
         concat (map (\<lambda>j. [MessagesCreate,
                             StdoutRetry ([30000, 60000, 120000] ! j) (Suc j),
                             Sleep ([30000, 60000, 120000] ! j)]) [0..<k]) @
         [MessagesCreate]"
    using conjunct2[OF conjunct2[OF conjunct2[OF rf]]]
    by (simp add: callWithRetry_def RETRY_DELAYS_MS_def)
qed

text \<open>
  Claim C4. \<open>callWithRetry\<close> makes at most four attempts. Let attempt \<open>k\<close> be the
  first that does not end in the overload condition (status 529), or the fourth
  attempt when the first three all do. Then the run is, in this order: for each
  of the attempts before \<open>k\<close> the call, the announcement of the wait and the
  wait itself, of 30 s after the first attempt, 60 s after the second and 120 s
  after the third; then the call of attempt \<open>k\<close>, and nothing after it. So every
  wait lies between a failed attempt and the retry that follows it. The executor
  ends with the outcome of attempt \<open>k\<close>, be it the answer or the failure, after
  exactly \<open>k + 1\<close> attempts. So two overloads and then an answer return the
  answer after 30 s + 60 s, a failure of another kind leaves from the first
  attempt without a wait, and after three retries the last failure is the one
  thrown.
\<close>

theorem callWithRetry_backoff:
  fixes create :: "nat \<Rightarrow> thrown + 'm"
  shows "attempts (snd (callWithRetry create)) \<le> 4 \<and>
    (\<forall>k\<le>3. (\<forall>j<k. overloadFailure (create j)) \<and> (k = 3 \<or> \<not> overloadFailure (create k)) \<longrightarrow>
       fst (callWithRetry create) = create k \<and>
       snd (callWithRetry create) =
         concat (map (\<lambda>j. [MessagesCreate,
                             StdoutRetry ([30000, 60000, 120000] ! j) (Suc j),
                             Sleep ([30000, 60000, 120000] ! j)]) [0..<k]) @
         [MessagesCreate] \<and>
       waits (snd (callWithRetry create)) = take k [30000, 60000, 120000] \<and>
       attempts (snd (callWithRetry create)) = k + 1)"
proof (rule conjI)
  obtain k where k: "k \<le> 3" "\<forall>j<k. overloadFailure (create j)"
    "k = 3 \<or> \<not> overloadFailure (create k)"
    by (rule retry_index)
  have "attempts (snd (callWithRetry create)) = k + 1"
    using k by (rule retry_start(4))
  then show "attempts (snd (callWithRetry create)) \<le> 4"
    using k(1) by simp
next
  show "\<forall>k\<le>3. (\<forall>j<k. overloadFailure (create j)) \<and> (k = 3 \<or> \<not> overloadFailure (create k)) \<longrightarrow>
       fst (callWithRetry create) = create k \<and>
       snd (callWithRetry create) =
         concat (map (\<lambda>j. [MessagesCreate,
                             StdoutRetry ([30000, 60000, 120000] ! j) (Suc j),
                             Sleep ([30000, 60000, 120000] ! j)]) [0..<k]) @
         [MessagesCreate] \<and>
       waits (snd (callWithRetry create)) = take k [30000, 60000, 120000] \<and>
       attempts (snd (callWithRetry create)) = k + 1"
  proof (intro allI impI)
    fix k :: nat
    assume le: "k \<le> 3"
      and h: "(\<forall>j<k. overloadFailure (create j)) \<and> (k = 3 \<or> \<not> overloadFailure (create k))"
    from h have h1: "\<forall>j<k. overloadFailure (create j)"
      and h2: "k = 3 \<or> \<not> overloadFailure (create k)" by blast+
    show "fst (callWithRetry create) = create k \<and>
       snd (callWithRetry create) =
         concat (map (\<lambda>j. [MessagesCreate,
                             StdoutRetry ([30000, 60000, 120000] ! j) (Suc j),
                             Sleep ([30000, 60000, 120000] ! j)]) [0..<k]) @
         [MessagesCreate] \<and>
       waits (snd (callWithRetry create)) = take k [30000, 60000, 120000] \<and>
       attempts (snd (callWithRetry create)) = k + 1"
      by (intro conjI retry_start(1)[OF le h1 h2] retry_start(2)[OF le h1 h2]
          retry_start(3)[OF le h1 h2] retry_start(4)[OF le h1 h2])
  qed
qed

theorem callWithRetry_backoff_witness:
  "overloadFailure (twiceOverloaded 0) \<and> overloadFailure (twiceOverloaded 1) \<and>
   \<not> overloadFailure (twiceOverloaded 2) \<and>
   fst (callWithRetry twiceOverloaded) = Inr (lit ''ok'') \<and>
   snd (callWithRetry twiceOverloaded) =
     [MessagesCreate, StdoutRetry 30000 1, Sleep 30000,
      MessagesCreate, StdoutRetry 60000 2, Sleep 60000,
      MessagesCreate] \<and>
   waits (snd (callWithRetry twiceOverloaded)) = [30000, 60000] \<and>
   totalWait (snd (callWithRetry twiceOverloaded)) = 30000 + 60000 \<and>
   attempts (snd (callWithRetry twiceOverloaded)) = 3 \<and>
   \<not> overloadFailure (badRequest 0) \<and>
   fst (callWithRetry badRequest) = Inl (APIError (Some 400) (lit ''bad request'')) \<and>
   snd (callWithRetry badRequest) = [MessagesCreate] \<and>
   waits (snd (callWithRetry badRequest)) = [] \<and>
   attempts (snd (callWithRetry badRequest)) = 1 \<and>
   overloadFailure (alwaysOverloaded 0) \<and> overloadFailure (alwaysOverloaded 1) \<and>
   overloadFailure (alwaysOverloaded 2) \<and>
   fst (callWithRetry alwaysOverloaded) = Inl (APIError (Some 529) (lit ''overloaded'')) \<and>
   snd (callWithRetry alwaysOverloaded) =
     [MessagesCreate, StdoutRetry 30000 1, Sleep 30000,
      MessagesCreate, StdoutRetry 60000 2, Sleep 60000,
      MessagesCreate, StdoutRetry 120000 3, Sleep 120000,
      MessagesCreate] \<and>
   attempts (snd (callWithRetry alwaysOverloaded)) = 4"
proof -
  have ov: "\<forall>j<2. overloadFailure (twiceOverloaded j)"
    by (simp add: overloadFailure_def twiceOverloaded_def isOverloaded_def)
  have ov0: "overloadFailure (twiceOverloaded 0)" and ov1: "overloadFailure (twiceOverloaded 1)"
    by (simp_all add: overloadFailure_def twiceOverloaded_def isOverloaded_def)
  have ok: "\<not> overloadFailure (twiceOverloaded 2)"
    by (simp add: overloadFailure_def twiceOverloaded_def)
  have bad: "\<not> overloadFailure (badRequest 0)"
    by (simp add: overloadFailure_def badRequest_def isOverloaded_def)
  have al: "overloadFailure (alwaysOverloaded j)" for j
    by (simp add: overloadFailure_def alwaysOverloaded_def isOverloaded_def)
  have u2: "[0..<2] = [0, Suc 0]" and u3: "[0..<3] = [0, Suc 0, 2]"
    by (simp_all add: upt_rec)
  have le2: "(2::nat) \<le> 3" and le0: "(0::nat) \<le> 3" and le3: "(3::nat) \<le> 3"
    by simp_all
  have "fst (callWithRetry twiceOverloaded) = twiceOverloaded 2 \<and>
       snd (callWithRetry twiceOverloaded) =
         concat (map (\<lambda>j. [MessagesCreate,
                             StdoutRetry ([30000, 60000, 120000] ! j) (Suc j),
                             Sleep ([30000, 60000, 120000] ! j)]) [0..<2]) @
         [MessagesCreate] \<and>
       waits (snd (callWithRetry twiceOverloaded)) = take 2 [30000, 60000, 120000] \<and>
       attempts (snd (callWithRetry twiceOverloaded)) = 2 + 1"
    using callWithRetry_backoff[of twiceOverloaded, THEN conjunct2, rule_format, of 2] le2 ov ok
    by blast
  then have a: "fst (callWithRetry twiceOverloaded) = Inr (lit ''ok'') \<and>
   snd (callWithRetry twiceOverloaded) =
     [MessagesCreate, StdoutRetry 30000 1, Sleep 30000,
      MessagesCreate, StdoutRetry 60000 2, Sleep 60000,
      MessagesCreate] \<and>
   waits (snd (callWithRetry twiceOverloaded)) = [30000, 60000] \<and>
   totalWait (snd (callWithRetry twiceOverloaded)) = 30000 + 60000 \<and>
   attempts (snd (callWithRetry twiceOverloaded)) = 3"
    by (simp add: u2 twiceOverloaded_def totalWait_def attempts_def)
  have "fst (callWithRetry badRequest) = badRequest 0 \<and>
       snd (callWithRetry badRequest) =
         concat (map (\<lambda>j. [MessagesCreate,
                             StdoutRetry ([30000, 60000, 120000] ! j) (Suc j),
                             Sleep ([30000, 60000, 120000] ! j)]) [0..<0]) @
         [MessagesCreate] \<and>
       waits (snd (callWithRetry badRequest)) = take 0 [30000, 60000, 120000] \<and>
       attempts (snd (callWithRetry badRequest)) = 0 + 1"
    using callWithRetry_backoff[of badRequest, THEN conjunct2, rule_format, of 0] le0 bad
    by blast
  then have b: "fst (callWithRetry badRequest) = Inl (APIError (Some 400) (lit ''bad request'')) \<and>
   snd (callWithRetry badRequest) = [MessagesCreate] \<and>
   waits (snd (callWithRetry badRequest)) = [] \<and>
   attempts (snd (callWithRetry badRequest)) = 1"
    by (simp add: badRequest_def attempts_def)
  have "fst (callWithRetry alwaysOverloaded) = alwaysOverloaded 3 \<and>
       snd (callWithRetry alwaysOverloaded) =
         concat (map (\<lambda>j. [MessagesCreate,
                             StdoutRetry ([30000, 60000, 120000] ! j) (Suc j),
                             Sleep ([30000, 60000, 120000] ! j)]) [0..<3]) @
         [MessagesCreate] \<and>
       waits (snd (callWithRetry alwaysOverloaded)) = take 3 [30000, 60000, 120000] \<and>
       attempts (snd (callWithRetry alwaysOverloaded)) = 3 + 1"
    using callWithRetry_backoff[of alwaysOverloaded, THEN conjunct2, rule_format, of 3] le3 al
    by blast
  then have c: "fst (callWithRetry alwaysOverloaded) = Inl (APIError (Some 529) (lit ''overloaded'')) \<and>
   snd (callWithRetry alwaysOverloaded) =
     [MessagesCreate, StdoutRetry 30000 1, Sleep 30000,
      MessagesCreate, StdoutRetry 60000 2, Sleep 60000,
      MessagesCreate, StdoutRetry 120000 3, Sleep 120000,
      MessagesCreate] \<and>
   attempts (snd (callWithRetry alwaysOverloaded)) = 4"
    by (simp add: u3 alwaysOverloaded_def attempts_def)
  show ?thesis
    using a b c ov0 ov1 ok bad al[of 0] al[of 1] al[of 2] by blast
qed


section \<open>The scout handler\<close>

text \<open>
  Claim C9. The handler of GET /api/scout, the one caller of \<open>discoverJobs\<close>,
  answers 400 with a configuration message and without any effect, hence before
  any request is sent, whenever \<open>search_sites\<close> or \<open>role_keywords\<close> is missing or
  empty. When both lists are there and not empty it runs \<open>discoverJobs\<close> on them
  and answers 200 with its result.
\<close>

theorem scoutHandler_config_error:
  "((search_sites config = None \<or> search_sites config = Some [] \<or>
     role_keywords config = None \<or> role_keywords config = Some []) \<longrightarrow>
      (\<exists>msg. scoutHandler rt net config log = (Status400 msg, []))) \<and>
   (\<forall>sites kwds. search_sites config = Some sites \<and> sites \<noteq> [] \<and>
      role_keywords config = Some kwds \<and> kwds \<noteq> [] \<longrightarrow>
      scoutHandler rt net config log =
        (Status200 (fst (discoverJobs rt net log kwds sites)),
         snd (discoverJobs rt net log kwds sites)))"
  by (auto simp: scoutHandler_def split: option.splits prod.splits)

theorem scoutHandler_config_error_witness:
  "(\<exists>msg. scoutHandler sampleRuntime offline emptyConfig [] = (Status400 msg, [])) \<and>
   (\<exists>msg. scoutHandler sampleRuntime offline (sampleConfig\<lparr>role_keywords := Some []\<rparr>) [] =
      (Status400 msg, [])) \<and>
   fst (scoutHandler sampleRuntime offline sampleConfig []) = Status200 []"
proof -
  have a: "\<exists>msg. scoutHandler sampleRuntime offline emptyConfig [] = (Status400 msg, [])"
    using scoutHandler_config_error[of emptyConfig sampleRuntime offline "[]"]
    by (simp add: emptyConfig_def)
  have b: "\<exists>msg. scoutHandler sampleRuntime offline (sampleConfig\<lparr>role_keywords := Some []\<rparr>) [] =
      (Status400 msg, [])"
    using scoutHandler_config_error[of "sampleConfig\<lparr>role_keywords := Some []\<rparr>" sampleRuntime offline "[]"]
    by (simp add: sampleConfig_def)
  have "scoutHandler sampleRuntime offline sampleConfig [] =
      (Status200 (fst (discoverJobs sampleRuntime offline [] [lit ''QA'', lit ''test''] [lit ''nofluffjobs.com'', lit ''pracuj.pl''])),
       snd (discoverJobs sampleRuntime offline [] [lit ''QA'', lit ''test''] [lit ''nofluffjobs.com'', lit ''pracuj.pl'']))"
    using scoutHandler_config_error[of sampleConfig sampleRuntime offline "[]"]
    by (simp add: sampleConfig_def)
  moreover have "fst (discoverJobs sampleRuntime offline [] [lit ''QA'', lit ''test''] [lit ''nofluffjobs.com'', lit ''pracuj.pl'']) = []"
    by (simp add: discoverJobs_def fetchSite_def normalizeSite_def stripWww_def sampleRuntime_def offline_def
      fetchNoFluffJobsRSS_def searchViaSearXNG_def SEARXNG_INSTANCES_def char_eval)
  ultimately show ?thesis using a b by simp
qed




section \<open>The filter evaluator\<close>

lemma evaluateFilters_names:
  "map name (evaluateFilters rt config result jdText posting_age_days) = spec_activeRules config"
  unfolding evaluateFilters_def Let_def spec_activeRules_def
  apply (cases "min_match_score config"; cases "max_ghost_score config";
      cases "max_age_days config"; cases "work_mode config"; cases "require_salary config";
      cases "role_keywords config")
                      apply (simp_all split del: if_split)
               apply simp_all
  done

lemma length_spec_activeRules: "length (spec_activeRules config) \<le> 6"
  by (simp add: spec_activeRules_def)

text \<open>
  Claim C3. The names of the checks that \<open>evaluateFilters\<close> returns are exactly
  the names of the activated rules, one each and in the fixed order: Match Score
  when \<open>min_match_score\<close> is defined, Ghost Risk when \<open>max_ghost_score\<close> is, Freshness
  when \<open>max_age_days\<close> is, Work Mode when \<open>work_mode\<close> is defined and not \<open>any\<close>,
  Salary Visible when \<open>require_salary\<close> is true, Role Keywords when \<open>role_keywords\<close>
  is not empty. So there are between 0 and 6 checks, none for a rule that is not
  set, and the configuration with no field set gives the empty list.
\<close>

theorem evaluateFilters_checks:
  "map name (evaluateFilters rt config result jdText posting_age_days) = spec_activeRules config \<and>
   length (evaluateFilters rt config result jdText posting_age_days) =
     length (spec_activeRules config) \<and>
   length (evaluateFilters rt config result jdText posting_age_days) \<le> 6 \<and>
   evaluateFilters rt emptyConfig result jdText posting_age_days = []"
proof -
  have names: "map name (evaluateFilters rt config result jdText posting_age_days) =
      spec_activeRules config"
    by (rule evaluateFilters_names)
  have len: "length (evaluateFilters rt config result jdText posting_age_days) =
      length (spec_activeRules config)"
    using arg_cong[OF names, of length] by simp
  have "map name (evaluateFilters rt emptyConfig result jdText posting_age_days) = []"
    by (simp add: evaluateFilters_names spec_activeRules_def emptyConfig_def)
  then have "evaluateFilters rt emptyConfig result jdText posting_age_days = []"
    by simp
  then show ?thesis
    using names len length_spec_activeRules[of config] by simp
qed

theorem evaluateFilters_checks_witness:
  "map name (evaluateFilters sampleRuntime sampleConfig \<lparr>match_score = 74, ghost_score = 45\<rparr>
      (lit ''Remote QA role, B2B'') None) =
     [lit ''Match Score'', lit ''Freshness'', lit ''Role Keywords''] \<and>
   length (evaluateFilters sampleRuntime sampleConfig \<lparr>match_score = 74, ghost_score = 45\<rparr>
      (lit ''Remote QA role, B2B'') None) = 3"
  using evaluateFilters_checks[of sampleRuntime sampleConfig
      "\<lparr>match_score = 74, ghost_score = 45\<rparr>" "lit ''Remote QA role, B2B''" None]
  by (simp add: spec_activeRules_def sampleConfig_def)


section \<open>The company extractor\<close>

lemma matchesAt_iff:
  "matchesAt ic p s \<longleftrightarrow>
     length p \<le> length s \<and> list_all2 (charMatches ic) p (take (length p) s)"
proof (induction p arbitrary: s)
  case Nil
  then show ?case by simp
next
  case (Cons a p)
  then show ?case by (cases s) auto
qed

lemma suffixGroup_Some_iff:
  "suffixGroup ic sep lo hi s = Some c \<longleftrightarrow>
     (\<exists>m. s = m @ c \<and> list_all2 (charMatches ic) sep m \<and> dotGroup lo hi c)"
proof
  assume "suffixGroup ic sep lo hi s = Some c"
  then have m: "matchesAt ic sep s" and c: "c = drop (length sep) s" and d: "dotGroup lo hi c"
    by (auto simp: suffixGroup_def split: if_splits)
  from m have "list_all2 (charMatches ic) sep (take (length sep) s)"
    by (simp add: matchesAt_iff)
  moreover have "s = take (length sep) s @ c" using c by simp
  ultimately show "\<exists>m. s = m @ c \<and> list_all2 (charMatches ic) sep m \<and> dotGroup lo hi c"
    using d by blast
next
  assume "\<exists>m. s = m @ c \<and> list_all2 (charMatches ic) sep m \<and> dotGroup lo hi c"
  then obtain m where s: "s = m @ c" and m: "list_all2 (charMatches ic) sep m"
    and d: "dotGroup lo hi c" by blast
  from m have len: "length m = length sep" by (simp add: list_all2_lengthD)
  then have "matchesAt ic sep s" using s m by (simp add: matchesAt_iff)
  then show "suffixGroup ic sep lo hi s = Some c"
    using s len d by (simp add: suffixGroup_def)
qed

lemma regexSearch_None_iff:
  "regexSearch f t = None \<longleftrightarrow> (\<forall>s. suffix s t \<longrightarrow> f s = None)"
  by (induction t) (auto simp: suffix_Cons split: option.splits)

lemma regexSearch_Some:
  "regexSearch f t = Some g \<Longrightarrow>
     \<exists>s. suffix s t \<and> f s = Some g \<and> (\<forall>s'. suffix s' t \<and> length s < length s' \<longrightarrow> f s' = None)"
proof (induction t)
  case Nil
  then show ?case by auto
next
  case (Cons a t)
  show ?case
  proof (cases "f (a # t)")
    case None
    with Cons.prems have "regexSearch f t = Some g" by simp
    from Cons.IH[OF this] obtain s where s: "suffix s t" "f s = Some g"
      "\<forall>s'. suffix s' t \<and> length s < length s' \<longrightarrow> f s' = None" by blast
    then show ?thesis using None by (auto simp: suffix_Cons intro!: exI[of _ s])
  next
    case (Some g')
    with Cons.prems have "g' = g" by simp
    with Some show ?thesis
      by (auto simp: suffix_Cons dest: suffix_length_le intro!: exI[of _ "a # t"])
  qed
qed

lemma spec_titleSuffix_iff:
  "spec_titleSuffix ic sep lo hi t c \<longleftrightarrow>
     (\<exists>s. suffix s t \<and> suffixGroup ic sep lo hi s = Some c)"
  unfolding spec_titleSuffix_def suffixGroup_Some_iff suffix_def by blast

lemma suffixGroup_length:
  "suffixGroup ic sep lo hi s = Some c \<Longrightarrow> length s = length sep + length c"
  by (auto simp: suffixGroup_Some_iff dest: list_all2_lengthD)

lemma regexSearch_suffixGroup_None:
  "regexSearch (suffixGroup ic sep lo hi) t = None \<longleftrightarrow> \<not> (\<exists>c. spec_titleSuffix ic sep lo hi t c)"
  unfolding regexSearch_None_iff spec_titleSuffix_iff by (metis not_Some_eq)

lemma regexSearch_suffixGroup_Some:
  assumes "regexSearch (suffixGroup ic sep lo hi) t = Some c"
  shows "spec_company ic sep lo hi t c"
proof -
  from regexSearch_Some[OF assms] obtain s where s: "suffix s t"
    "suffixGroup ic sep lo hi s = Some c"
    "\<forall>s'. suffix s' t \<and> length s < length s' \<longrightarrow> suffixGroup ic sep lo hi s' = None"
    by blast
  have "spec_titleSuffix ic sep lo hi t c"
    using s(1,2) by (auto simp: spec_titleSuffix_iff)
  moreover have "length c' \<le> length c" if "spec_titleSuffix ic sep lo hi t c'" for c'
  proof -
    from that obtain s' where s': "suffix s' t" "suffixGroup ic sep lo hi s' = Some c'"
      by (auto simp: spec_titleSuffix_iff)
    then have "\<not> length s < length s'" using s(3) by auto
    then show ?thesis
      using suffixGroup_length[OF s(2)] suffixGroup_length[OF s'(2)] by simp
  qed
  ultimately show ?thesis by (simp add: spec_company_def)
qed


lemma extractCompany_examples:
  "extractCompany (lit ''QA Engineer @ Acme Corp'') = Some (lit ''Acme Corp'')"
  "extractCompany (lit ''QA Engineer at Acme'') = Some (lit ''Acme'')"
  "extractCompany (lit ''QA Engineer | Acme'') = Some (lit ''Acme'')"
  "extractCompany (lit ''QA Engineer'') = None"
  by (simp_all add: extractCompany_def suffixGroup_def dotGroup_def trim_def char_eval)

text \<open>
  Claim C8. \<open>extractCompany\<close> tries the three conventions in order: the
  separator \<open>" @ "\<close> with a company of 2 to 60 code units, then \<open>" at "\<close> in any
  case with 2 to 40, then \<open>"|"\<close> with 2 to 40. Its result is \<open>null\<close> exactly when
  the title follows none of them; otherwise it is the trimmed company of the
  first convention the title follows. The four titles of the specification give
  the four results it states.
\<close>

theorem extractCompany_conventions:
  "(extractCompany t = None \<longleftrightarrow>
      \<not> (\<exists>c. spec_titleSuffix False (lit '' @ '') 2 60 t c) \<and>
      \<not> (\<exists>c. spec_titleSuffix True (lit '' at '') 2 40 t c) \<and>
      \<not> (\<exists>c. spec_titleSuffix False (lit ''|'') 2 40 t c)) \<and>
   (\<forall>r. extractCompany t = Some r \<longrightarrow>
      (\<exists>c. r = trim c \<and>
         (spec_company False (lit '' @ '') 2 60 t c \<or>
          (\<not> (\<exists>c'. spec_titleSuffix False (lit '' @ '') 2 60 t c') \<and>
           spec_company True (lit '' at '') 2 40 t c) \<or>
          (\<not> (\<exists>c'. spec_titleSuffix False (lit '' @ '') 2 60 t c') \<and>
           \<not> (\<exists>c'. spec_titleSuffix True (lit '' at '') 2 40 t c') \<and>
           spec_company False (lit ''|'') 2 40 t c)))) \<and>
   extractCompany (lit ''QA Engineer @ Acme Corp'') = Some (lit ''Acme Corp'') \<and>
   extractCompany (lit ''QA Engineer at Acme'') = Some (lit ''Acme'') \<and>
   extractCompany (lit ''QA Engineer | Acme'') = Some (lit ''Acme'') \<and>
   extractCompany (lit ''QA Engineer'') = None"
proof -
  let ?a = "regexSearch (suffixGroup False (lit '' @ '') 2 60) t"
  let ?b = "regexSearch (suffixGroup True (lit '' at '') 2 40) t"
  let ?c = "regexSearch (suffixGroup False (lit ''|'') 2 40) t"
  have none: "extractCompany t = None \<longleftrightarrow> ?a = None \<and> ?b = None \<and> ?c = None"
    by (simp add: extractCompany_def split: option.splits)
  have some: "\<exists>c. r = trim c \<and>
         (spec_company False (lit '' @ '') 2 60 t c \<or>
          (\<not> (\<exists>c'. spec_titleSuffix False (lit '' @ '') 2 60 t c') \<and>
           spec_company True (lit '' at '') 2 40 t c) \<or>
          (\<not> (\<exists>c'. spec_titleSuffix False (lit '' @ '') 2 60 t c') \<and>
           \<not> (\<exists>c'. spec_titleSuffix True (lit '' at '') 2 40 t c') \<and>
           spec_company False (lit ''|'') 2 40 t c))"
    if r: "extractCompany t = Some r" for r
  proof (cases ?a)
    case (Some g)
    then have "r = trim g" using r by (simp add: extractCompany_def)
    then show ?thesis using regexSearch_suffixGroup_Some[OF Some] by blast
  next
    case a: None
    show ?thesis
    proof (cases ?b)
      case (Some g)
      then have "r = trim g" using r a by (simp add: extractCompany_def)
      then show ?thesis
        using regexSearch_suffixGroup_Some[OF Some] a
        unfolding regexSearch_suffixGroup_None by blast
    next
      case b: None
      then obtain g where g: "?c = Some g" and "r = trim g"
        using r a by (auto simp: extractCompany_def split: option.splits)
      then show ?thesis
        using regexSearch_suffixGroup_Some[OF g] a b
        unfolding regexSearch_suffixGroup_None by blast
    qed
  qed
  show ?thesis
    using none some extractCompany_examples
    unfolding regexSearch_suffixGroup_None by blast
qed

theorem extractCompany_conventions_witness:
  "extractCompany (lit ''QA Engineer at Acme'') = Some (lit ''Acme'') \<and>
   (\<exists>c. lit ''Acme'' = trim c \<and>
      (spec_company False (lit '' @ '') 2 60 (lit ''QA Engineer at Acme'') c \<or>
       (\<not> (\<exists>c'. spec_titleSuffix False (lit '' @ '') 2 60 (lit ''QA Engineer at Acme'') c') \<and>
        spec_company True (lit '' at '') 2 40 (lit ''QA Engineer at Acme'') c) \<or>
       (\<not> (\<exists>c'. spec_titleSuffix False (lit '' @ '') 2 60 (lit ''QA Engineer at Acme'') c') \<and>
        \<not> (\<exists>c'. spec_titleSuffix True (lit '' at '') 2 40 (lit ''QA Engineer at Acme'') c') \<and>
        spec_company False (lit ''|'') 2 40 (lit ''QA Engineer at Acme'') c)))"
proof -
  have ex: "extractCompany (lit ''QA Engineer at Acme'') = Some (lit ''Acme'')"
    by (simp add: extractCompany_def suffixGroup_def dotGroup_def trim_def char_eval)
  note extractCompany_conventions[of "lit ''QA Engineer at Acme''", THEN conjunct2,
      THEN conjunct1, rule_format, OF ex]
  with ex show ?thesis by (intro conjI)
qed


section \<open>The age of a feed entry\<close>

lemma rssDateToAgeDays_parsed:
  "dateGetTime rt s = Num t \<Longrightarrow>
     rssDateToAgeDays rt s = Some (Num (max 0 ((dateNow rt - t) div 86400000)))"
  by (simp add: rssDateToAgeDays_def)

lemma rssDateToAgeDays_unparsed:
  "dateGetTime rt s = NaN \<Longrightarrow> rssDateToAgeDays rt s = Some NaN"
  by (simp add: rssDateToAgeDays_def)

lemma rssDateToAgeDays_never_null: "rssDateToAgeDays rt s \<noteq> None"
  by (simp add: rssDateToAgeDays_def)

text \<open>
  Claim C5, on the failing input. With the publish date \<open>soon\<close>, which is no date,
  \<open>rssDateToAgeDays\<close> returns \<open>NaN\<close>, not \<open>null\<close>; the feed adapter emits the entry
  with that age, and \<open>discoverJobs\<close> hands \<open>NaN\<close> on as the entry's \<open>age_days\<close>.
\<close>

theorem rssDateToAgeDays_not_a_date:
  "dateGetTime sampleRuntime (lit ''soon'') = NaN \<and>
   rssDateToAgeDays sampleRuntime (lit ''soon'') = Some NaN \<and>
   map raw_age_days (feedEntries sampleRuntime [lit ''qa''] [undatedItem]) = [AgeNumber NaN] \<and>
   map age_days
     (fst (discoverJobs sampleRuntime (offline\<lparr>rssFeed := (\<lambda>i. Some [undatedItem])\<rparr>) []
        [lit ''QA''] [lit ''nofluffjobs.com''])) = [Some NaN]"
proof -
  have t: "dateGetTime sampleRuntime (lit ''soon'') = NaN"
    by (simp add: sampleRuntime_def sampleGetTime_def lit_def)
  have a: "rssDateToAgeDays sampleRuntime (lit ''soon'') = Some NaN"
    using t by (rule rssDateToAgeDays_unparsed)
  have e: "feedEntry sampleRuntime [lit ''qa''] undatedItem =
      Some \<lparr>raw_url = lit ''https://nofluffjobs.com/job/1'', raw_title = lit ''QA Engineer @ Acme'',
            raw_snippet = lit ''Test automation'', raw_site = lit ''nofluffjobs.com'',
            raw_age_days = AgeNumber NaN\<rparr>"
    by (simp add: feedEntry_def undatedItem_def rssDateToAgeDays_def sampleRuntime_def
        sampleGetTime_def asciiLower_def trim_def char_eval)
  have f: "feedEntries sampleRuntime [lit ''qa''] [undatedItem] =
      [\<lparr>raw_url = lit ''https://nofluffjobs.com/job/1'', raw_title = lit ''QA Engineer @ Acme'',
        raw_snippet = lit ''Test automation'', raw_site = lit ''nofluffjobs.com'',
        raw_age_days = AgeNumber NaN\<rparr>]"
    by (simp add: e)
  have k: "map (toLowerCase sampleRuntime) [lit ''QA''] = [lit ''qa'']"
    by (simp add: sampleRuntime_def asciiLower_def lit_def)
  have n: "normalizeSite sampleRuntime (lit ''nofluffjobs.com'') = lit ''nofluffjobs.com''"
    by (simp add: normalizeSite_def stripWww_def char_eval)
  have g: "gathered sampleRuntime (offline\<lparr>rssFeed := (\<lambda>i. Some [undatedItem])\<rparr>)
        [lit ''QA''] [lit ''nofluffjobs.com''] =
      [\<lparr>raw_url = lit ''https://nofluffjobs.com/job/1'', raw_title = lit ''QA Engineer @ Acme'',
        raw_snippet = lit ''Test automation'', raw_site = lit ''nofluffjobs.com'',
        raw_age_days = AgeNumber NaN\<rparr>]"
    using k e
    by (simp add: gathered_def n fetchSite_def fetchNoFluffJobsRSS_def offline_def Let_def)
  have d: "map age_days
     (fst (discoverJobs sampleRuntime (offline\<lparr>rssFeed := (\<lambda>i. Some [undatedItem])\<rparr>) []
        [lit ''QA''] [lit ''nofluffjobs.com''])) = [Some NaN]"
    unfolding discoverJobs_fst g by (simp add: toDiscoveryResult_def lit_def)
  show ?thesis using t a f d by simp
qed


section \<open>The meta-search fallback\<close>

lemma mapResults_None_iff: "mapResults s xs = None \<longleftrightarrow> BadEntry \<in> set xs"
  by (induction s xs rule: mapResults.induct) (auto split: option.splits)

lemma mapResults_length: "mapResults s xs = Some mapped \<Longrightarrow> length mapped = length xs"
  by (induction s xs arbitrary: mapped rule: mapResults.induct) (auto split: option.splits)

lemma mapResults_Some: "BadEntry \<notin> set xs \<Longrightarrow> \<exists>mapped. mapResults s xs = Some mapped"
  using mapResults_None_iff[of s xs] by auto

lemma searxLoop_Cons:
  "searxLoop get s (instance # rest) =
     (if usable get instance
      then (filter (\<lambda>res. raw_url res \<noteq> [])
              (the (mapResults s (take 10 (the (get instance))))),
            [HttpGet (instance @ lit ''/search'')])
      else (fst (searxLoop get s rest),
            HttpGet (instance @ lit ''/search'') # snd (searxLoop get s rest)))"
proof (cases "usable get instance")
  case True
  then obtain results where r: "get instance = Some results" "results \<noteq> []"
    "BadEntry \<notin> set (take 10 results)"
    by (auto simp: usable_def split: option.splits)
  from mapResults_Some[OF r(3)] obtain mapped
    where "mapResults s (take 10 results) = Some mapped" by blast
  then show ?thesis using True r by (simp add: Let_def)
next
  case False
  then have "get instance = None \<or> (\<exists>results. get instance = Some results \<and>
      (results = [] \<or> mapResults s (take 10 results) = None))"
    by (auto simp: usable_def mapResults_None_iff split: option.splits)
  then show ?thesis using False
    by (auto simp: Let_def split: prod.splits)
qed

lemma searxLoop_results:
  "(case find (usable get) insts of
      None \<Rightarrow> fst (searxLoop get s insts) = []
    | Some inst \<Rightarrow>
        (\<exists>results mapped. get inst = Some results \<and> results \<noteq> [] \<and>
           mapResults s (take 10 results) = Some mapped \<and>
           fst (searxLoop get s insts) = filter (\<lambda>res. raw_url res \<noteq> []) mapped))"
proof (induction insts)
  case Nil
  then show ?case by simp
next
  case (Cons inst insts)
  show ?case
  proof (cases "usable get inst")
    case True
    then obtain results where r: "get inst = Some results" "results \<noteq> []"
      "BadEntry \<notin> set (take 10 results)"
      by (auto simp: usable_def split: option.splits)
    then obtain mapped where m: "mapResults s (take 10 results) = Some mapped"
      using mapResults_None_iff[of s "take 10 results"] by auto
    show ?thesis using True r m by (simp add: searxLoop_Cons del: searxLoop.simps(2))
  next
    case False
    then show ?thesis using Cons.IH
      by (simp add: searxLoop_Cons split: option.splits del: searxLoop.simps(2))
  qed
qed

lemma searxLoop_length: "length (fst (searxLoop get s insts)) \<le> 10"
proof -
  have "length (filter P mapped) \<le> 10"
    if "mapResults s (take 10 results) = Some mapped" for P mapped and results :: "searx_result list"
    using mapResults_length[OF that] length_filter_le[of P mapped] by simp
  then show ?thesis
    using searxLoop_results[where get=get and insts=insts and s=s]
    by (auto split: option.splits)
qed

lemma searxLoop_requests:
  "requests (snd (searxLoop get s insts)) =
     map (\<lambda>inst. inst @ lit ''/search'')
       (takeWhile (\<lambda>inst. \<not> usable get inst) insts @
        (case find (usable get) insts of None \<Rightarrow> [] | Some inst \<Rightarrow> [inst]))"
  by (induction insts) (simp_all add: searxLoop_Cons del: searxLoop.simps(2))

text \<open>
  Claim C6 as stated fails: the adapter does not always return the results of
  the first instance that yields at least one result. When the first instance
  answers with one result that has no URL, the adapter takes that instance, drops
  the result and returns the empty list; the second instance, which has a
  listing, is never asked.
\<close>

theorem searchViaSearXNG_urlless:
  "searxSearch urllessNet 0 (lit ''https://searx.be'') (lit ''site:pracuj.pl QA'') =
     Some [Entry None (Some (lit ''QA @ Acme'')) None] \<and>
   searxSearch urllessNet 0 (lit ''https://searxng.site'') (lit ''site:pracuj.pl QA'') =
     Some [sampleEntry 1] \<and>
   lit ''site:'' @ lit ''pracuj.pl'' @ lit '' '' @ joinWith (lit '' '') [lit ''QA''] =
     lit ''site:pracuj.pl QA'' \<and>
   fst (searchViaSearXNG urllessNet 0 (lit ''pracuj.pl'') [lit ''QA'']) = [] \<and>
   requests (snd (searchViaSearXNG urllessNet 0 (lit ''pracuj.pl'') [lit ''QA''])) =
     [lit ''https://searx.be/search'']"
  by (simp add: searchViaSearXNG_def SEARXNG_INSTANCES_def urllessNet_def Let_def lit_def)

text \<open>
  Claim C6, amended. \<open>searchViaSearXNG\<close> asks the three instances in their fixed
  order and stops at the first usable one, that is the first that answers without
  failing with at least one result: it requests every instance before that one
  and that one, and no later instance. Its result is made of the first ten
  results of that instance, mapped to listings, without those that have no URL;
  so it has at most ten listings and may have none. When no instance is usable,
  all three are requested and the result is the empty list. The adapter never
  throws.
\<close>

theorem searchViaSearXNG_fallback:
  "(case find (usable (\<lambda>instance. searxSearch net i instance
            (lit ''site:'' @ s @ lit '' '' @ joinWith (lit '' '') keywords))) SEARXNG_INSTANCES of
      None \<Rightarrow> fst (searchViaSearXNG net i s keywords) = []
    | Some inst \<Rightarrow>
        (\<exists>results mapped.
           searxSearch net i inst (lit ''site:'' @ s @ lit '' '' @ joinWith (lit '' '') keywords) =
             Some results \<and>
           results \<noteq> [] \<and>
           mapResults s (take 10 results) = Some mapped \<and>
           fst (searchViaSearXNG net i s keywords) = filter (\<lambda>res. raw_url res \<noteq> []) mapped)) \<and>
   length (fst (searchViaSearXNG net i s keywords)) \<le> 10 \<and>
   requests (snd (searchViaSearXNG net i s keywords)) =
     map (\<lambda>inst. inst @ lit ''/search'')
       (takeWhile (\<lambda>inst. \<not> usable (\<lambda>instance. searxSearch net i instance
            (lit ''site:'' @ s @ lit '' '' @ joinWith (lit '' '') keywords)) inst) SEARXNG_INSTANCES @
        (case find (usable (\<lambda>instance. searxSearch net i instance
            (lit ''site:'' @ s @ lit '' '' @ joinWith (lit '' '') keywords))) SEARXNG_INSTANCES of
           None \<Rightarrow> []
         | Some inst \<Rightarrow> [inst]))"
  unfolding searchViaSearXNG_def Let_def
  using searxLoop_results[where s=s and insts=SEARXNG_INSTANCES and
      get="\<lambda>instance. searxSearch net i instance
            (lit ''site:'' @ s @ lit '' '' @ joinWith (lit '' '') keywords)"]
    searxLoop_length[where s=s and insts=SEARXNG_INSTANCES and
      get="\<lambda>instance. searxSearch net i instance
            (lit ''site:'' @ s @ lit '' '' @ joinWith (lit '' '') keywords)"]
    searxLoop_requests[where s=s and insts=SEARXNG_INSTANCES and
      get="\<lambda>instance. searxSearch net i instance
            (lit ''site:'' @ s @ lit '' '' @ joinWith (lit '' '') keywords)"]
  by blast

theorem searchViaSearXNG_fallback_witness:
  "requests (snd (searchViaSearXNG crowdedNet 0 (lit ''pracuj.pl'') [lit ''QA''])) =
     [lit ''https://searx.be/search'', lit ''https://searxng.site/search''] \<and>
   length (fst (searchViaSearXNG crowdedNet 0 (lit ''pracuj.pl'') [lit ''QA''])) \<le> 10 \<and>
   map raw_url (fst (searchViaSearXNG crowdedNet 0 (lit ''pracuj.pl'') [lit ''QA''])) =
     map (\<lambda>k. lit ''https://jobs.example/'' @ showNat k) [1, 2, 3, 4, 5, 6, 7, 8, 9, 10]"
proof -
  let ?get = "\<lambda>instance. searxSearch crowdedNet 0 instance
      (lit ''site:'' @ lit ''pracuj.pl'' @ lit '' '' @ joinWith (lit '' '') [lit ''QA''])"
  have u1: "\<not> usable ?get (lit ''https://searx.be'')"
    by (simp add: usable_def crowdedNet_def lit_def)
  have u2: "usable ?get (lit ''https://searxng.site'')"
    by (simp add: usable_def crowdedNet_def sampleEntry_def)
  have f: "find (usable ?get) SEARXNG_INSTANCES = Some (lit ''https://searxng.site'')"
    and t: "takeWhile (\<lambda>inst. \<not> usable ?get inst) SEARXNG_INSTANCES = [lit ''https://searx.be'']"
    using u1 u2 by (simp_all add: SEARXNG_INSTANCES_def)
  have r: "requests (snd (searchViaSearXNG crowdedNet 0 (lit ''pracuj.pl'') [lit ''QA''])) =
     [lit ''https://searx.be/search'', lit ''https://searxng.site/search'']"
    using searchViaSearXNG_fallback[of crowdedNet 0 "lit ''pracuj.pl''" "[lit ''QA'']"]
    unfolding f t by (simp add: lit_def)
  have l: "length (fst (searchViaSearXNG crowdedNet 0 (lit ''pracuj.pl'') [lit ''QA''])) \<le> 10"
    using searchViaSearXNG_fallback[of crowdedNet 0 "lit ''pracuj.pl''" "[lit ''QA'']"]
    by (elim conjE)
  have m: "map raw_url (fst (searchViaSearXNG crowdedNet 0 (lit ''pracuj.pl'') [lit ''QA''])) =
     map (\<lambda>k. lit ''https://jobs.example/'' @ showNat k) [1, 2, 3, 4, 5, 6, 7, 8, 9, 10]"
    by (simp add: searchViaSearXNG_def SEARXNG_INSTANCES_def crowdedNet_def sampleEntry_def
        Let_def lit_def)
  show ?thesis using r l m by (intro conjI)
qed


section \<open>One source fails, the others go on\<close>

lemma consoleLines_append: "consoleLines (xs @ ys) = consoleLines xs @ consoleLines ys"
  by (induction xs rule: consoleLines.induct) auto

lemma consoleLines_searxLoop: "consoleLines (snd (searxLoop get s insts)) = []"
  by (induction insts) (auto simp: Let_def split: option.splits prod.splits)

lemma consoleLines_fetchSite: "consoleLines (snd (fetchSite rt net keywords i s)) = []"
  by (simp add: fetchSite_def fetchNoFluffJobsRSS_def fetchJustJoinIt_def searchViaSearXNG_def
      Let_def consoleLines_searxLoop split_beta split: option.splits)

lemma scoutLoop_fst:
  "fst (scoutLoop rt net keywords i sites (raw, fx)) =
     raw @ concat (map (siteResults rt net keywords) (enumerate i sites))"
proof (induction sites arbitrary: i raw fx)
  case Nil
  then show ?case by simp
next
  case (Cons rawSite rest)
  show ?case
  proof (cases "fetchSite rt net keywords i (normalizeSite rt rawSite)")
    case (Pair res sent)
    then show ?thesis
      by (cases res) (simp_all add: Cons.IH siteResults_def Let_def)
  qed
qed

lemma scoutLoop_console:
  "consoleLines (snd (scoutLoop rt net keywords i sites (raw, fx))) =
     consoleLines fx @ map (siteLine rt net keywords) (enumerate i sites)"
proof (induction sites arbitrary: i raw fx)
  case Nil
  then show ?case by simp
next
  case (Cons rawSite rest)
  show ?case
  proof (cases "fetchSite rt net keywords i (normalizeSite rt rawSite)")
    case (Pair res sent)
    have "consoleLines sent = []"
      using consoleLines_fetchSite[of rt net "keywords" i "normalizeSite rt rawSite"] Pair
      by simp
    with Pair show ?thesis
      by (cases res) (simp_all add: Cons.IH siteLine_def Let_def consoleLines_append)
  qed
qed

lemma gathered_sites:
  "gathered rt net keywords sites = concat (map (siteResults rt net keywords) (enumerate 0 sites))"
  by (simp add: gathered_def scoutLoop_fst)

text \<open>
  Claim C7. The listings a run gathers are the concatenation, site by site, of
  what each adapter returns, with nothing for a site whose adapter throws; and
  the console has exactly one line per site, in order, a warning for a site whose
  adapter throws. So if the adapter of a site throws, what the run gathers is
  what the sites before it and the sites after it contribute, and \<open>discoverJobs\<close>
  returns the list made from those; it has no outcome but a list.
\<close>

theorem discoverJobs_source_failure:
  "gathered rt net keywords sites =
     concat (map (siteResults rt net keywords) (enumerate 0 sites)) \<and>
   consoleLines (snd (discoverJobs rt net log keywords sites)) =
     map (siteLine rt net keywords) (enumerate 0 sites) \<and>
   fst (discoverJobs rt net log keywords sites) =
     map (toDiscoveryResult rt log (set (map entry_url log)))
       (dedupe {} (concat (map (siteResults rt net keywords) (enumerate 0 sites)))) \<and>
   (\<forall>pre s post. sites = pre @ s # post \<and>
      fst (fetchSite rt net keywords (length pre) (normalizeSite rt s)) = None \<longrightarrow>
      siteLine rt net keywords (length pre, s) = ConsoleWarn (normalizeSite rt s) \<and>
      gathered rt net keywords sites =
        concat (map (siteResults rt net keywords) (enumerate 0 pre)) @
        concat (map (siteResults rt net keywords) (enumerate (Suc (length pre)) post)))"
proof (intro conjI allI impI)
  show g: "gathered rt net keywords sites =
     concat (map (siteResults rt net keywords) (enumerate 0 sites))"
    by (rule gathered_sites)
  show "consoleLines (snd (discoverJobs rt net log keywords sites)) =
     map (siteLine rt net keywords) (enumerate 0 sites)"
    by (simp add: discoverJobs_snd scoutLoop_console)
  show "fst (discoverJobs rt net log keywords sites) =
     map (toDiscoveryResult rt log (set (map entry_url log)))
       (dedupe {} (concat (map (siteResults rt net keywords) (enumerate 0 sites))))"
    by (simp add: discoverJobs_fst g)
next
  fix pre s post
  assume a: "sites = pre @ s # post \<and>
      fst (fetchSite rt net keywords (length pre) (normalizeSite rt s)) = None"
  then show "siteLine rt net keywords (length pre, s) = ConsoleWarn (normalizeSite rt s)"
    by (simp add: siteLine_def)
  from a have "siteResults rt net keywords (length pre, s) = []"
    by (simp add: siteResults_def)
  then show "gathered rt net keywords sites =
        concat (map (siteResults rt net keywords) (enumerate 0 pre)) @
        concat (map (siteResults rt net keywords) (enumerate (Suc (length pre)) post))"
    using a by (simp add: gathered_sites enumerate_append_eq)
qed

theorem discoverJobs_source_failure_witness:
  "fst (fetchSite sampleRuntime sampleNet [lit ''QA''] 0
      (normalizeSite sampleRuntime (lit ''nofluffjobs.com''))) = None \<and>
   map raw_url (gathered sampleRuntime sampleNet [lit ''QA'']
      [lit ''nofluffjobs.com'', lit ''www.pracuj.pl'']) =
     [lit ''https://jobs.example/1'', lit ''https://jobs.example/2'',
      lit ''https://jobs.example/2''] \<and>
   siteLine sampleRuntime sampleNet [lit ''QA''] (0, lit ''nofluffjobs.com'') =
     ConsoleWarn (lit ''nofluffjobs.com'')"
proof -
  have n: "normalizeSite sampleRuntime (lit ''nofluffjobs.com'') = lit ''nofluffjobs.com''"
    "normalizeSite sampleRuntime (lit ''www.pracuj.pl'') = lit ''pracuj.pl''"
    by (simp_all add: normalizeSite_def stripWww_def char_eval)
  have f: "fst (fetchSite sampleRuntime sampleNet [lit ''QA''] 0
      (normalizeSite sampleRuntime (lit ''nofluffjobs.com''))) = None"
    unfolding n by (simp add: fetchSite_def fetchNoFluffJobsRSS_def sampleNet_def)
  have p: "map raw_url (siteResults sampleRuntime sampleNet [lit ''QA''] (Suc 0, lit ''www.pracuj.pl'')) =
     [lit ''https://jobs.example/1'', lit ''https://jobs.example/2'',
      lit ''https://jobs.example/2'']"
    unfolding siteResults_def fst_conv snd_conv n
    by (simp add: fetchSite_def searchViaSearXNG_def SEARXNG_INSTANCES_def sampleNet_def
        sampleEntry_def Let_def lit_def showNat.simps)
  from discoverJobs_source_failure[of sampleRuntime sampleNet "[lit ''QA'']"
      "[lit ''nofluffjobs.com'', lit ''www.pracuj.pl'']" "[]", THEN conjunct2, THEN conjunct2,
      THEN conjunct2, rule_format, of "[]" "lit ''nofluffjobs.com''" "[lit ''www.pracuj.pl'']"] f
  have "siteLine sampleRuntime sampleNet [lit ''QA''] (0, lit ''nofluffjobs.com'') =
      ConsoleWarn (normalizeSite sampleRuntime (lit ''nofluffjobs.com'')) \<and>
    gathered sampleRuntime sampleNet [lit ''QA''] [lit ''nofluffjobs.com'', lit ''www.pracuj.pl''] =
      siteResults sampleRuntime sampleNet [lit ''QA''] (Suc 0, lit ''www.pracuj.pl'')"
    by simp
  then show ?thesis using f p unfolding n by simp
qed


section \<open>Listings, duplicates and the history\<close>

subsection \<open>Every gathered listing has a URL\<close>

lemma feedEntries_url: "r \<in> set (feedEntries rt kw els) \<Longrightarrow> raw_url r \<noteq> []"
  by (induction els) (auto simp: feedEntry_def Let_def split: option.splits if_splits)

lemma collectParts_url: "r \<in> set (collectParts rt kw parts) \<Longrightarrow> raw_url r \<noteq> []"
  by (induction rt kw parts rule: collectParts.induct)
     (auto simp: Let_def split: option.splits if_splits)

lemma searxLoop_url: "r \<in> set (fst (searxLoop get s insts)) \<Longrightarrow> raw_url r \<noteq> []"
  by (induction insts) (auto simp: Let_def split: option.splits if_splits prod.splits)

lemma fetchSite_url:
  assumes "fst (fetchSite rt net kw i s) = Some results" and "r \<in> set results"
  shows "raw_url r \<noteq> []"
proof -
  consider (rss) "s = lit ''nofluffjobs.com''"
    | (jj) "s \<noteq> lit ''nofluffjobs.com''" "s = lit ''justjoin.it''"
    | (searx) "s \<noteq> lit ''nofluffjobs.com''" "s \<noteq> lit ''justjoin.it''"
    by blast
  then show ?thesis
  proof cases
    case rss
    then have "r \<in> set (take 30 (feedEntries rt (map (toLowerCase rt) kw) (the (rssFeed net i))))"
      using assms by (auto simp: fetchSite_def fetchNoFluffJobsRSS_def Let_def split: option.splits)
    then show ?thesis using feedEntries_url by (blast dest: in_set_takeD)
  next
    case jj
    then obtain el where "r \<in> set (scriptParts rt (map (toLowerCase rt) kw) el)"
      using assms by (auto simp: fetchSite_def fetchJustJoinIt_def Let_def split: option.splits)
    then show ?thesis
      using collectParts_url by (auto simp: scriptParts_def split: ld_script.splits)
  next
    case searx
    then have "r \<in> set (fst (searchViaSearXNG net i s kw))"
      using assms by (auto simp: fetchSite_def split: prod.splits)
    then show ?thesis using searxLoop_url by (auto simp: searchViaSearXNG_def Let_def)
  qed
qed

lemma siteResults_url:
  assumes "r \<in> set (siteResults rt net kw p)"
  shows "raw_url r \<noteq> []"
proof (cases "fst (fetchSite rt net kw (fst p) (normalizeSite rt (snd p)))")
  case None
  then show ?thesis using assms by (simp add: siteResults_def)
next
  case (Some results)
  then have "r \<in> set results" using assms by (simp add: siteResults_def)
  with Some show ?thesis by (rule fetchSite_url)
qed

lemma gathered_url: "r \<in> set (gathered rt net kw sites) \<Longrightarrow> raw_url r \<noteq> []"
  unfolding gathered_def scoutLoop_fst using siteResults_url by auto

subsection \<open>What the duplicate filter keeps\<close>

lemma remdups_snoc: "remdups (ys @ [x]) = filter (\<lambda>y. y \<noteq> x) (remdups ys) @ [x]"
  by (induction ys) auto

lemma first_seen_Cons:
  "rev (remdups (rev (x # xs))) = x # filter (\<lambda>y. y \<noteq> x) (rev (remdups (rev xs)))"
  by (simp add: remdups_snoc rev_filter)

lemma dedupe_urls:
  "\<forall>r\<in>set rs. raw_url r \<noteq> [] \<Longrightarrow>
     map raw_url (dedupe seen rs) =
       filter (\<lambda>u. u \<notin> seen) (rev (remdups (rev (map raw_url rs))))"
proof (induction rs arbitrary: seen)
  case Nil
  then show ?case by simp
next
  case (Cons r rs)
  have ih: "map raw_url (dedupe S rs) =
      filter (\<lambda>u. u \<notin> S) (rev (remdups (rev (map raw_url rs))))" for S
    using Cons by simp
  have ne: "raw_url r \<noteq> []" using Cons.prems by simp
  show ?case
  proof (cases "raw_url r \<in> seen")
    case True
    then have "filter (\<lambda>u. u \<noteq> raw_url r \<and> u \<notin> seen) xs = filter (\<lambda>u. u \<notin> seen) xs" for xs
      by (intro filter_cong) auto
    then show ?thesis using True
      by (simp add: ih first_seen_Cons del: rev.simps remdups.simps)
  next
    case False
    have "filter (\<lambda>u. u \<noteq> raw_url r \<and> u \<notin> seen) xs = filter (\<lambda>u. u \<notin> seen \<and> u \<noteq> raw_url r) xs"
      for xs by (rule filter_cong) auto
    then show ?thesis using False ne
      by (simp add: ih first_seen_Cons del: rev.simps remdups.simps)
  qed
qed

lemma dedupe_find:
  "r \<in> set (dedupe seen rs) \<Longrightarrow>
     find (\<lambda>x. raw_url x = raw_url r) rs = Some r \<and> raw_url r \<notin> seen \<and> raw_url r \<noteq> []"
proof (induction rs arbitrary: seen)
  case Nil
  then show ?case by simp
next
  case (Cons a rs)
  show ?case
  proof (cases "raw_url a = [] \<or> raw_url a \<in> seen")
    case True
    with Cons.prems have "r \<in> set (dedupe seen rs)" by auto
    from Cons.IH[OF this] show ?thesis using True by auto
  next
    case False
    with Cons.prems consider "r = a" | "r \<in> set (dedupe (insert (raw_url a) seen) rs)"
      by auto
    then show ?thesis
    proof cases
      case 1
      then show ?thesis using False by simp
    next
      case 2
      from Cons.IH[OF this] show ?thesis by auto
    qed
  qed
qed

lemma discoverJobs_urls:
  "map url (fst (discoverJobs rt net log kw sites)) =
     rev (remdups (rev (map raw_url (gathered rt net kw sites))))"
proof -
  have "map url (fst (discoverJobs rt net log kw sites)) =
      map raw_url (dedupe {} (gathered rt net kw sites))"
    by (simp add: discoverJobs_fst toDiscoveryResult_def)
  also have "\<dots> = filter (\<lambda>u. u \<notin> {}) (rev (remdups (rev (map raw_url (gathered rt net kw sites)))))"
    using gathered_url by (intro dedupe_urls) blast
  finally show ?thesis by simp
qed

lemma discoverJobs_first:
  assumes "d \<in> set (fst (discoverJobs rt net log kw sites))"
  shows "\<exists>r. find (\<lambda>x. raw_url x = url d) (gathered rt net kw sites) = Some r \<and>
             d = toDiscoveryResult rt log (set (map entry_url log)) r"
proof -
  from assms obtain r where r: "r \<in> set (dedupe {} (gathered rt net kw sites))"
    and d: "d = toDiscoveryResult rt log (set (map entry_url log)) r"
    by (auto simp: discoverJobs_fst)
  have "url d = raw_url r" using d by (simp add: toDiscoveryResult_def)
  then show ?thesis using dedupe_find[OF r] d by auto
qed

text \<open>The listings of the sample network for one meta-search site.\<close>

lemma sample_gathered:
  "gathered sampleRuntime sampleNet [lit ''QA''] [lit ''www.pracuj.pl''] =
     [\<lparr>raw_url = lit ''https://jobs.example/1'', raw_title = lit ''QA @ Acme'', raw_snippet = [],
       raw_site = lit ''pracuj.pl'', raw_age_days = AgeUndefined\<rparr>,
      \<lparr>raw_url = lit ''https://jobs.example/2'', raw_title = lit ''QA @ Acme'', raw_snippet = [],
       raw_site = lit ''pracuj.pl'', raw_age_days = AgeUndefined\<rparr>,
      \<lparr>raw_url = lit ''https://jobs.example/2'', raw_title = lit ''QA @ Acme'', raw_snippet = [],
       raw_site = lit ''pracuj.pl'', raw_age_days = AgeUndefined\<rparr>]"
proof -
  have n: "normalizeSite sampleRuntime (lit ''www.pracuj.pl'') = lit ''pracuj.pl''"
    by (simp add: normalizeSite_def stripWww_def char_eval)
  show ?thesis
    unfolding gathered_def scoutLoop.simps Let_def n
    by (simp add: fetchSite_def searchViaSearXNG_def SEARXNG_INSTANCES_def sampleNet_def
        sampleEntry_def Let_def lit_def showNat.simps)
qed

lemma sample_unique:
  "fst (discoverJobs sampleRuntime sampleNet log [lit ''QA''] [lit ''www.pracuj.pl'']) =
     map (toDiscoveryResult sampleRuntime log (set (map entry_url log)))
       [\<lparr>raw_url = lit ''https://jobs.example/1'', raw_title = lit ''QA @ Acme'',
         raw_snippet = [], raw_site = lit ''pracuj.pl'', raw_age_days = AgeUndefined\<rparr>,
        \<lparr>raw_url = lit ''https://jobs.example/2'', raw_title = lit ''QA @ Acme'',
         raw_snippet = [], raw_site = lit ''pracuj.pl'', raw_age_days = AgeUndefined\<rparr>]"
  unfolding discoverJobs_fst sample_gathered by (simp add: lit_def)

subsection \<open>One result per URL\<close>

text \<open>
  Claim C1. The listings of a run are gathered site by site in the order of the
  site list, each site's in the order its adapter returns them. The URLs of the
  results of \<open>discoverJobs\<close> are the URLs of the gathered listings in the order
  in which each is first seen, each once: they are distinct and they are all the
  URLs gathered. The result for a URL is made from
  the first gathered listing with that URL. The log does not change which URLs
  are returned: a URL that is in the log stays in the output.
\<close>

theorem discoverJobs_one_per_url:
  "gathered rt net kw sites = concat (map (siteResults rt net kw) (enumerate 0 sites)) \<and>
   map url (fst (discoverJobs rt net log kw sites)) =
     rev (remdups (rev (map raw_url (gathered rt net kw sites)))) \<and>
   distinct (map url (fst (discoverJobs rt net log kw sites))) \<and>
   set (map url (fst (discoverJobs rt net log kw sites))) = raw_url ` set (gathered rt net kw sites) \<and>
   (\<forall>d\<in>set (fst (discoverJobs rt net log kw sites)).
      \<exists>r. find (\<lambda>x. raw_url x = url d) (gathered rt net kw sites) = Some r \<and>
          d = toDiscoveryResult rt log (set (map entry_url log)) r) \<and>
   map url (fst (discoverJobs rt net log kw sites)) = map url (fst (discoverJobs rt net [] kw sites))"
proof -
  have u: "map url (fst (discoverJobs rt net l kw sites)) =
      rev (remdups (rev (map raw_url (gathered rt net kw sites))))" for l
    by (rule discoverJobs_urls)
  have "distinct (map url (fst (discoverJobs rt net log kw sites)))"
    unfolding u by simp
  moreover have "set (map url (fst (discoverJobs rt net log kw sites))) =
      raw_url ` set (gathered rt net kw sites)"
    unfolding u by simp
  moreover have "\<forall>d\<in>set (fst (discoverJobs rt net log kw sites)).
      \<exists>r. find (\<lambda>x. raw_url x = url d) (gathered rt net kw sites) = Some r \<and>
          d = toDiscoveryResult rt log (set (map entry_url log)) r"
    using discoverJobs_first by blast
  ultimately show ?thesis using u[of log] u[of "[]"] gathered_sites[of rt net kw sites] by simp
qed

theorem discoverJobs_one_per_url_witness:
  "map raw_url (gathered sampleRuntime sampleNet [lit ''QA''] [lit ''www.pracuj.pl'']) =
     [lit ''https://jobs.example/1'', lit ''https://jobs.example/2'', lit ''https://jobs.example/2''] \<and>
   map url (fst (discoverJobs sampleRuntime sampleNet pastLog [lit ''QA''] [lit ''www.pracuj.pl''])) =
     [lit ''https://jobs.example/1'', lit ''https://jobs.example/2''] \<and>
   map already_seen
     (fst (discoverJobs sampleRuntime sampleNet pastLog [lit ''QA''] [lit ''www.pracuj.pl''])) =
     [False, True]"
proof -
  have g: "map raw_url (gathered sampleRuntime sampleNet [lit ''QA''] [lit ''www.pracuj.pl'']) =
     [lit ''https://jobs.example/1'', lit ''https://jobs.example/2'', lit ''https://jobs.example/2'']"
    by (simp add: sample_gathered)
  have "map url (fst (discoverJobs sampleRuntime sampleNet pastLog [lit ''QA''] [lit ''www.pracuj.pl''])) =
     rev (remdups (rev (map raw_url
       (gathered sampleRuntime sampleNet [lit ''QA''] [lit ''www.pracuj.pl'']))))"
    using discoverJobs_one_per_url[where rt=sampleRuntime and net=sampleNet and log=pastLog
        and kw="[lit ''QA'']" and sites="[lit ''www.pracuj.pl'']"] by (elim conjE)
  then have u: "map url (fst (discoverJobs sampleRuntime sampleNet pastLog [lit ''QA''] [lit ''www.pracuj.pl''])) =
     [lit ''https://jobs.example/1'', lit ''https://jobs.example/2'']"
    unfolding g by (simp add: lit_def)
  have s: "map already_seen
     (fst (discoverJobs sampleRuntime sampleNet pastLog [lit ''QA''] [lit ''www.pracuj.pl''])) =
     [False, True]"
    unfolding sample_unique by (simp add: toDiscoveryResult_def pastLog_def lit_def)
  show ?thesis using g u s by (intro conjI)
qed

subsection \<open>Days since a posting was logged\<close>




subsection \<open>The adapter's fields are kept\<close>

text \<open>
  Claim C10. Every result of \<open>discoverJobs\<close> comes from the first gathered
  listing with its URL and has that listing's \<open>url\<close>, \<open>title\<close>, \<open>snippet\<close> and
  \<open>site\<close> unchanged; its \<open>age_days\<close> is the listing's when that is a number and
  \<open>null\<close> when the listing has none or has \<open>null\<close>. The other five fields
  are the annotations computed from that listing, the log and the clock.
\<close>

theorem discoverJobs_frame:
  "\<forall>d\<in>set (fst (discoverJobs rt net log kw sites)).
     \<exists>r. find (\<lambda>x. raw_url x = url d) (gathered rt net kw sites) = Some r \<and>
         url d = raw_url r \<and> title d = raw_title r \<and> snippet d = raw_snippet r \<and>
         site d = raw_site r \<and>
         age_days d = (case raw_age_days r of
                         AgeUndefined \<Rightarrow> None | AgeNull \<Rightarrow> None | AgeNumber n \<Rightarrow> Some n) \<and>
         company d = extractCompany (raw_title r) \<and>
         has_salary d = hasSalary (raw_title r @ lit '' '' @ raw_snippet r) \<and>
         ghost_preflag d = isGhostPreflag rt (raw_title r) (raw_snippet r) \<and>
         already_seen d = (raw_url r \<in> entry_url ` set log)"
proof
  fix d
  assume "d \<in> set (fst (discoverJobs rt net log kw sites))"
  from discoverJobs_first[OF this] obtain r
    where r: "find (\<lambda>x. raw_url x = url d) (gathered rt net kw sites) = Some r"
      and d: "d = toDiscoveryResult rt log (set (map entry_url log)) r"
    by blast
  have "url d = raw_url r \<and> title d = raw_title r \<and> snippet d = raw_snippet r \<and>
         site d = raw_site r \<and>
         age_days d = (case raw_age_days r of
                         AgeUndefined \<Rightarrow> None | AgeNull \<Rightarrow> None | AgeNumber n \<Rightarrow> Some n) \<and>
         company d = extractCompany (raw_title r) \<and>
         has_salary d = hasSalary (raw_title r @ lit '' '' @ raw_snippet r) \<and>
         ghost_preflag d = isGhostPreflag rt (raw_title r) (raw_snippet r) \<and>
         already_seen d = (raw_url r \<in> entry_url ` set log)"
    unfolding d by (simp add: toDiscoveryResult_def split: raw_age.splits)
  with r show "\<exists>r. find (\<lambda>x. raw_url x = url d) (gathered rt net kw sites) = Some r \<and>
         url d = raw_url r \<and> title d = raw_title r \<and> snippet d = raw_snippet r \<and>
         site d = raw_site r \<and>
         age_days d = (case raw_age_days r of
                         AgeUndefined \<Rightarrow> None | AgeNull \<Rightarrow> None | AgeNumber n \<Rightarrow> Some n) \<and>
         company d = extractCompany (raw_title r) \<and>
         has_salary d = hasSalary (raw_title r @ lit '' '' @ raw_snippet r) \<and>
         ghost_preflag d = isGhostPreflag rt (raw_title r) (raw_snippet r) \<and>
         already_seen d = (raw_url r \<in> entry_url ` set log)"
    by blast
qed

theorem discoverJobs_frame_witness:
  "hd (fst (discoverJobs sampleRuntime sampleNet [] [lit ''QA''] [lit ''www.pracuj.pl''])) \<in>
     set (fst (discoverJobs sampleRuntime sampleNet [] [lit ''QA''] [lit ''www.pracuj.pl''])) \<and>
   (\<exists>r. find (\<lambda>x. raw_url x =
            url (hd (fst (discoverJobs sampleRuntime sampleNet [] [lit ''QA''] [lit ''www.pracuj.pl'']))))
          (gathered sampleRuntime sampleNet [lit ''QA''] [lit ''www.pracuj.pl'']) = Some r \<and>
        title (hd (fst (discoverJobs sampleRuntime sampleNet [] [lit ''QA''] [lit ''www.pracuj.pl''])))
          = raw_title r \<and>
        site (hd (fst (discoverJobs sampleRuntime sampleNet [] [lit ''QA''] [lit ''www.pracuj.pl''])))
          = raw_site r) \<and>
   map title (fst (discoverJobs sampleRuntime sampleNet [] [lit ''QA''] [lit ''www.pracuj.pl''])) =
     [lit ''QA @ Acme'', lit ''QA @ Acme''] \<and>
   map age_days (fst (discoverJobs sampleRuntime sampleNet [] [lit ''QA''] [lit ''www.pracuj.pl''])) =
     [None, None]"
proof -
  let ?out = "fst (discoverJobs sampleRuntime sampleNet [] [lit ''QA''] [lit ''www.pracuj.pl''])"
  have m: "hd ?out \<in> set ?out"
    unfolding sample_unique by simp
  from discoverJobs_frame[of sampleRuntime sampleNet "[]" "[lit ''QA'']" "[lit ''www.pracuj.pl'']",
      rule_format, OF m]
  have e: "\<exists>r. find (\<lambda>x. raw_url x = url (hd ?out))
          (gathered sampleRuntime sampleNet [lit ''QA''] [lit ''www.pracuj.pl'']) = Some r \<and>
        title (hd ?out) = raw_title r \<and> site (hd ?out) = raw_site r"
    by blast
  have t: "map title ?out = [lit ''QA @ Acme'', lit ''QA @ Acme'']"
    and a: "map age_days ?out = [None, None]"
    unfolding sample_unique by (simp_all add: toDiscoveryResult_def)
  show ?thesis using m e t a by (intro conjI)
qed

end
